theory Spec2Isabelle
  imports Complex_Main "HOL-Library.Multiset" "HOL-Library.List_Lexorder"
begin

section \<open>Values\<close>

text \<open>
  The program reads two JSON files with \<^verbatim>\<open>json.load\<close> and hands the decoded values to
  \<^verbatim>\<open>build_price_catalogue\<close> and \<^verbatim>\<open>compute_sales_total\<close>. A decoded value is
  \<^verbatim>\<open>None\<close>, a \<^verbatim>\<open>bool\<close>, an \<^verbatim>\<open>int\<close> (unbounded), a \<^verbatim>\<open>float\<close>, a \<^verbatim>\<open>str\<close>,
  a \<^verbatim>\<open>list\<close> or a \<^verbatim>\<open>dict\<close> with string keys. A \<^verbatim>\<open>dict\<close> is given by its items;
  the keys of a decoded object are distinct. A string is the list of its characters,
  each a code point below 256.
\<close>

subsection \<open>Floats\<close>

text \<open>
  A \<^verbatim>\<open>float\<close> is a finite value, an infinity or NaN: \<^verbatim>\<open>json.load\<close> decodes \<^verbatim>\<open>1e999\<close> and
  \<^verbatim>\<open>Infinity\<close> to the infinity and \<^verbatim>\<open>NaN\<close> to NaN. Finite values are embedded as
  exact real numbers: every finite double is a real, and sums and products of finite
  values are those of the reals, neither rounded nor overflowing. The infinities and
  NaN follow IEEE 754. The conversions between \<^verbatim>\<open>int\<close>, \<^verbatim>\<open>str\<close> and \<^verbatim>\<open>float\<close> raise and
  overflow as in Python.
\<close>

datatype pyfloat = Fin real | PInf | NInf | NaN

fun fadd :: "pyfloat \<Rightarrow> pyfloat \<Rightarrow> pyfloat" where
  "fadd (Fin a) (Fin b) = Fin (a + b)"
| "fadd (Fin a) PInf = PInf"
| "fadd (Fin a) NInf = NInf"
| "fadd PInf (Fin b) = PInf"
| "fadd PInf PInf = PInf"
| "fadd PInf NInf = NaN"
| "fadd NInf (Fin b) = NInf"
| "fadd NInf PInf = NaN"
| "fadd NInf NInf = NInf"
| "fadd NaN y = NaN"
| "fadd x NaN = NaN"

fun fmul :: "pyfloat \<Rightarrow> pyfloat \<Rightarrow> pyfloat" where
  "fmul (Fin a) (Fin b) = Fin (a * b)"
| "fmul (Fin a) PInf = (if a = 0 then NaN else if 0 < a then PInf else NInf)"
| "fmul (Fin a) NInf = (if a = 0 then NaN else if 0 < a then NInf else PInf)"
| "fmul PInf (Fin b) = (if b = 0 then NaN else if 0 < b then PInf else NInf)"
| "fmul NInf (Fin b) = (if b = 0 then NaN else if 0 < b then NInf else PInf)"
| "fmul PInf PInf = PInf"
| "fmul PInf NInf = NInf"
| "fmul NInf PInf = NInf"
| "fmul NInf NInf = PInf"
| "fmul NaN y = NaN"
| "fmul x NaN = NaN"

text \<open>\<^verbatim>\<open>a < b\<close> on floats: every comparison with NaN is False.\<close>

fun float_lt :: "pyfloat \<Rightarrow> pyfloat \<Rightarrow> bool" where
  "float_lt (Fin a) (Fin b) = (a < b)"
| "float_lt (Fin a) PInf = True"
| "float_lt NInf (Fin b) = True"
| "float_lt NInf PInf = True"
| "float_lt x y = False"

text \<open>\<^verbatim>\<open>0.0\<close> and \<^verbatim>\<open>+\<close> on floats, written \<open>0\<close> and \<open>+\<close>.\<close>

instantiation pyfloat :: comm_monoid_add
begin

definition zero_pyfloat :: pyfloat where
  "zero_pyfloat = Fin 0"

definition plus_pyfloat :: "pyfloat \<Rightarrow> pyfloat \<Rightarrow> pyfloat" where
  "plus_pyfloat = fadd"

instance
proof
  fix a b c :: pyfloat
  show "a + b + c = a + (b + c)"
    by (cases a; cases b; cases c) (simp_all add: plus_pyfloat_def)
  show "a + b = b + a"
    by (cases a; cases b) (simp_all add: plus_pyfloat_def)
  show "0 + a = a"
    by (cases a) (simp_all add: plus_pyfloat_def zero_pyfloat_def)
qed

end

text \<open>
  The first magnitude that does not fit a double: \<open>2^1024 - 2^970\<close> is half-way
  between the largest double and \<open>2^1024\<close> and rounds up.
\<close>

definition float_limit :: int where
  "float_limit = 2 ^ 1024 - 2 ^ 970"

subsection \<open>Decoded values\<close>

datatype json =
    JNull
  | JBool bool
  | JInt int
  | JFloat pyfloat
  | JStr string
  | JList "json list"
  | JDict "(string \<times> json) list"

text \<open>The exceptions the code can meet. The handlers of the two loops catch the first three.\<close>

datatype error = KeyError | ValueError | TypeError | OverflowError

text \<open>What the program prints while it runs, one constructor per \<^verbatim>\<open>print\<close> of a loop.\<close>

datatype message =
    Invalid_product_entry json
  | Product_not_found json
  | Invalid_sales_record json

subsection \<open>Subscription of a record\<close>

text \<open>
  \<^verbatim>\<open>record["SALE_ID"]\<close>: a \<^verbatim>\<open>dict\<close> without the key raises \<^verbatim>\<open>KeyError\<close>; a string, a list, a
  number, a boolean or \<^verbatim>\<open>None\<close> subscripted with a string raises \<^verbatim>\<open>TypeError\<close>.
\<close>

fun getitem :: "json \<Rightarrow> string \<Rightarrow> error + json" where
  "getitem (JDict items) name =
     (case map_of items name of None \<Rightarrow> Inl KeyError | Some v \<Rightarrow> Inr v)"
| "getitem _ name = Inl TypeError"

subsection \<open>Conversion of strings to numbers\<close>

text \<open>
  \<^verbatim>\<open>int(s)\<close> and \<^verbatim>\<open>float(s)\<close>: surrounding whitespace is dropped (tab, line feed,
  vertical tab, form feed, carriage return, space, and the two spaces U+0085 and U+00A0
  above ASCII), a sign may lead, and a run of digits may hold single underscores
  between digits. Characters from U+0100 on (further spaces and digits of Unicode) are
  outside the strings of this model.
\<close>

definition is_space :: "char \<Rightarrow> bool" where
  "is_space c =
     (c \<in> set [CHR 0x09, CHR 0x0A, CHR 0x0B, CHR 0x0C, CHR 0x0D, CHR 0x20, CHR 0x85, CHR 0xA0])"

definition is_digit :: "char \<Rightarrow> bool" where
  "is_digit c = (c \<in> set ''0123456789'')"

definition digit_val :: "char \<Rightarrow> nat" where
  "digit_val c = of_char c - 48"

definition strip :: "string \<Rightarrow> string" where
  "strip s = rev (dropWhile is_space (rev (dropWhile is_space s)))"

text \<open>An optional sign: whether it is a minus, and the text after it.\<close>

fun sign_split :: "string \<Rightarrow> bool \<times> string" where
  "sign_split [] = (False, [])"
| "sign_split (c # cs) =
     (if c = CHR ''-'' then (True, cs)
      else if c = CHR ''+'' then (False, cs)
      else (False, c # cs))"

text \<open>
  The longest prefix of the form digit (\<^verbatim>\<open>_\<close>? digit)*: its digits, and the text that
  follows. An underscore that no digit follows is left in the rest.
\<close>

fun digitpart :: "string \<Rightarrow> nat list \<times> string" where
  "digitpart [] = ([], [])"
| "digitpart [c] = (if is_digit c then ([digit_val c], []) else ([], [c]))"
| "digitpart (c # u # cs) =
     (if is_digit c then
        (if u = CHR ''_'' \<and> cs \<noteq> [] \<and> is_digit (hd cs)
         then (case digitpart cs of (ds, rest) \<Rightarrow> (digit_val c # ds, rest))
         else (case digitpart (u # cs) of (ds, rest) \<Rightarrow> (digit_val c # ds, rest)))
      else ([], c # u # cs))"

definition digits_value :: "nat list \<Rightarrow> int" where
  "digits_value ds = int (foldl (\<lambda>a d. 10 * a + d) 0 ds)"

definition signed :: "bool \<Rightarrow> int \<Rightarrow> int" where
  "signed neg n = (if neg then - n else n)"

text \<open>
  \<^verbatim>\<open>int(s)\<close>. More than 4300 digits raise \<^verbatim>\<open>ValueError\<close> (the default of
  \<^verbatim>\<open>sys.int_max_str_digits\<close>, Python 3.11).
\<close>

definition int_of_str :: "string \<Rightarrow> int option" where
  "int_of_str s =
     (case sign_split (strip s) of (neg, body) \<Rightarrow>
      case digitpart body of (ds, rest) \<Rightarrow>
        if ds \<noteq> [] \<and> rest = [] \<and> length ds \<le> 4300
        then Some (signed neg (digits_value ds)) else None)"

text \<open>
  The exponent of a decimal literal: nothing, or \<^verbatim>\<open>e\<close> or \<^verbatim>\<open>E\<close>, an optional sign
  and at least one digit, up to the end of the text.
\<close>

definition exponent :: "string \<Rightarrow> int option" where
  "exponent s =
     (case s of
        [] \<Rightarrow> Some 0
      | c # cs \<Rightarrow>
          if c = CHR ''e'' \<or> c = CHR ''E'' then
            (case sign_split cs of (neg, body) \<Rightarrow>
             case digitpart body of (ds, rest) \<Rightarrow>
               if ds \<noteq> [] \<and> rest = [] then Some (signed neg (digits_value ds)) else None)
          else None)"

definition scale10 :: "real \<Rightarrow> int \<Rightarrow> real" where
  "scale10 m e = (if 0 \<le> e then m * 10 ^ nat e else m / 10 ^ nat (- e))"

text \<open>
  A decimal value as a float: an infinity from \<open>float_limit\<close> on, zero up to half the
  least positive double, the value itself in between (its rounding to the nearest
  double is not modelled).
\<close>

definition float_of_real :: "real \<Rightarrow> pyfloat" where
  "float_of_real r =
     (if of_int float_limit \<le> r then PInf
      else if r \<le> - of_int float_limit then NInf
      else if \<bar>r\<bar> \<le> 1 / 2 ^ 1075 then Fin 0
      else Fin r)"

text \<open>A word in any mix of upper and lower case; \<open>w\<close> is the word in lower case.\<close>

definition same_letter :: "char \<Rightarrow> char \<Rightarrow> bool" where
  "same_letter c l = (c = l \<or> (of_char c :: nat) + 32 = of_char l)"

definition spells :: "string \<Rightarrow> string \<Rightarrow> bool" where
  "spells s w = list_all2 same_letter s w"

text \<open>
  \<^verbatim>\<open>float(s)\<close>: after the sign, \<^verbatim>\<open>inf\<close>, \<^verbatim>\<open>infinity\<close> or \<^verbatim>\<open>nan\<close> in any case, or a decimal
  literal: digits, an optional point and digits (at least one digit on one side of the
  point), an optional exponent.
\<close>

definition decimal :: "bool \<Rightarrow> string \<Rightarrow> pyfloat option" where
  "decimal neg body =
     (case digitpart body of (ip, r1) \<Rightarrow>
      case (if r1 \<noteq> [] \<and> hd r1 = CHR ''.'' then digitpart (tl r1) else ([], r1)) of (fp, r2) \<Rightarrow>
        if ip = [] \<and> fp = [] then None
        else (case exponent r2 of
                None \<Rightarrow> None
              | Some e \<Rightarrow>
                  Some (float_of_real
                          (scale10 (of_int (signed neg (digits_value (ip @ fp))))
                             (e - int (length fp))))))"

definition float_of_str :: "string \<Rightarrow> pyfloat option" where
  "float_of_str s =
     (case sign_split (strip s) of (neg, body) \<Rightarrow>
        if spells body ''inf'' \<or> spells body ''infinity'' then Some (if neg then NInf else PInf)
        else if spells body ''nan'' then Some NaN
        else decimal neg body)"

subsection \<open>The conversions \<^verbatim>\<open>int(x)\<close> and \<^verbatim>\<open>float(x)\<close>\<close>

text \<open>
  \<^verbatim>\<open>int\<close> of a finite float truncates toward zero; of an infinity it raises
  \<^verbatim>\<open>OverflowError\<close>, of NaN \<^verbatim>\<open>ValueError\<close>.
\<close>

definition trunc :: "real \<Rightarrow> int" where
  "trunc r = (if 0 \<le> r then \<lfloor>r\<rfloor> else \<lceil>r\<rceil>)"

fun int_of_float :: "pyfloat \<Rightarrow> error + int" where
  "int_of_float (Fin r) = Inr (trunc r)"
| "int_of_float PInf = Inl OverflowError"
| "int_of_float NInf = Inl OverflowError"
| "int_of_float NaN = Inl ValueError"

fun py_int :: "json \<Rightarrow> error + int" where
  "py_int (JInt n) = Inr n"
| "py_int (JBool b) = Inr (if b then 1 else 0)"
| "py_int (JFloat x) = int_of_float x"
| "py_int (JStr s) = (case int_of_str s of None \<Rightarrow> Inl ValueError | Some n \<Rightarrow> Inr n)"
| "py_int JNull = Inl TypeError"
| "py_int (JList xs) = Inl TypeError"
| "py_int (JDict items) = Inl TypeError"

text \<open>
  An \<^verbatim>\<open>int\<close> becomes a \<^verbatim>\<open>float\<close> when \<^verbatim>\<open>float(n)\<close> is called and when a \<^verbatim>\<open>float\<close> is
  multiplied by it. The conversion raises \<^verbatim>\<open>OverflowError\<close> from \<open>float_limit\<close> on.
\<close>

definition float_of_int :: "int \<Rightarrow> error + pyfloat" where
  "float_of_int n = (if \<bar>n\<bar> < float_limit then Inr (Fin (of_int n)) else Inl OverflowError)"

fun py_float :: "json \<Rightarrow> error + pyfloat" where
  "py_float (JInt n) = float_of_int n"
| "py_float (JBool b) = Inr (Fin (if b then 1 else 0))"
| "py_float (JFloat x) = Inr x"
| "py_float (JStr s) = (case float_of_str s of None \<Rightarrow> Inl ValueError | Some x \<Rightarrow> Inr x)"
| "py_float JNull = Inl TypeError"
| "py_float (JList xs) = Inl TypeError"
| "py_float (JDict items) = Inl TypeError"

text \<open>\<^verbatim>\<open>price * quantity\<close> with a \<^verbatim>\<open>float\<close> on the left and an \<^verbatim>\<open>int\<close> on the right.\<close>

definition float_mul_int :: "pyfloat \<Rightarrow> int \<Rightarrow> error + pyfloat" where
  "float_mul_int x n = (case float_of_int n of Inl e \<Rightarrow> Inl e | Inr y \<Rightarrow> Inr (fmul x y))"

section \<open>Dictionaries\<close>

text \<open>
  The keys of a \<^verbatim>\<open>dict\<close> are hashable values: of the decoded values, all but lists and
  dicts, whose hash raises \<^verbatim>\<open>TypeError\<close>. Two keys are the same key when they are equal
  in Python: numbers and booleans by their value (\<^verbatim>\<open>True == 1 == 1.0\<close>), strings by
  their text. \<^verbatim>\<open>json.load\<close> decodes every \<^verbatim>\<open>NaN\<close> to one and the same object, which a
  \<^verbatim>\<open>dict\<close> finds again by identity: NaN is the same key as NaN.
\<close>

datatype pykey = KNone | KBool bool | KInt int | KFloat pyfloat | KStr string

fun py_hash :: "json \<Rightarrow> error + pykey" where
  "py_hash JNull = Inr KNone"
| "py_hash (JBool b) = Inr (KBool b)"
| "py_hash (JInt n) = Inr (KInt n)"
| "py_hash (JFloat x) = Inr (KFloat x)"
| "py_hash (JStr s) = Inr (KStr s)"
| "py_hash (JList xs) = Inl TypeError"
| "py_hash (JDict items) = Inl TypeError"

fun key_num :: "pykey \<Rightarrow> pyfloat option" where
  "key_num (KBool b) = Some (Fin (if b then 1 else 0))"
| "key_num (KInt n) = Some (Fin (of_int n))"
| "key_num (KFloat x) = Some x"
| "key_num KNone = None"
| "key_num (KStr s) = None"

definition key_eq :: "pykey \<Rightarrow> pykey \<Rightarrow> bool" where
  "key_eq a b =
     (case key_num a of
        Some x \<Rightarrow> (case key_num b of Some y \<Rightarrow> x = y | None \<Rightarrow> False)
      | None \<Rightarrow> (case key_num b of Some y \<Rightarrow> False | None \<Rightarrow> a = b))"

text \<open>
  A dictionary is the list of its items in insertion order. Storing under a key that
  is already there replaces the value and keeps the key object first inserted.
\<close>

type_synonym 'v dict = "(pykey \<times> 'v) list"

fun dict_lookup :: "'v dict \<Rightarrow> pykey \<Rightarrow> 'v option" where
  "dict_lookup [] k = None"
| "dict_lookup ((k', v) # d) k = (if key_eq k' k then Some v else dict_lookup d k)"

fun dict_store :: "'v dict \<Rightarrow> pykey \<Rightarrow> 'v \<Rightarrow> 'v dict" where
  "dict_store [] k v = [(k, v)]"
| "dict_store ((k', v') # d) k v =
     (if key_eq k' k then (k', v) # d else (k', v') # dict_store d k v)"

text \<open>\<^verbatim>\<open>x in d\<close>, \<^verbatim>\<open>d[x]\<close> and \<^verbatim>\<open>d[x] = v\<close>: each hashes \<open>x\<close> first.\<close>

definition contains :: "'v dict \<Rightarrow> json \<Rightarrow> error + bool" where
  "contains d x =
     (case py_hash x of Inl e \<Rightarrow> Inl e | Inr k \<Rightarrow> Inr (dict_lookup d k \<noteq> None))"

definition subscript :: "'v dict \<Rightarrow> json \<Rightarrow> error + 'v" where
  "subscript d x =
     (case py_hash x of
        Inl e \<Rightarrow> Inl e
      | Inr k \<Rightarrow> (case dict_lookup d k of None \<Rightarrow> Inl KeyError | Some v \<Rightarrow> Inr v))"

definition setitem :: "'v dict \<Rightarrow> json \<Rightarrow> 'v \<Rightarrow> error + 'v dict" where
  "setitem d x v = (case py_hash x of Inl e \<Rightarrow> Inl e | Inr k \<Rightarrow> Inr (dict_store d k v))"

text \<open>Iterating over a dictionary yields its keys in insertion order.\<close>

definition dict_keys :: "'v dict \<Rightarrow> pykey list" where
  "dict_keys d = map fst d"

section \<open>Exceptions\<close>

text \<open>
  Statements in sequence: the first exception raised ends the sequence and is the
  outcome.
\<close>

definition ebind :: "error + 'a \<Rightarrow> ('a \<Rightarrow> error + 'b) \<Rightarrow> error + 'b" where
  "ebind m f = (case m of Inl e \<Rightarrow> Inl e | Inr x \<Rightarrow> f x)"

text \<open>\<^verbatim>\<open>except (KeyError, ValueError, TypeError)\<close>\<close>

definition caught :: "error \<Rightarrow> bool" where
  "caught e = (e = KeyError \<or> e = ValueError \<or> e = TypeError)"

section \<open>The catalogue builder\<close>

text \<open>
  \<^verbatim>\<open>build_price_catalogue\<close> is given the decoded product list and goes through its
  records. The body of the \<^verbatim>\<open>try\<close>, statement by statement: the store is its last
  statement, so an exception leaves the catalogue as it was.
\<close>

definition product_body :: "pyfloat dict \<Rightarrow> json \<Rightarrow> error + pyfloat dict" where
  "product_body catalogue product =
     ebind (getitem product ''title'') (\<lambda>title.
     ebind (getitem product ''price'') (\<lambda>p.
     ebind (py_float p) (\<lambda>price.
     setitem catalogue title price)))"

text \<open>One iteration: the state is the catalogue and what has been printed.\<close>

definition process_product ::
  "pyfloat dict \<times> message list \<Rightarrow> json \<Rightarrow> error + pyfloat dict \<times> message list" where
  "process_product st product =
     (case product_body (fst st) product of
        Inr catalogue' \<Rightarrow> Inr (catalogue', snd st)
      | Inl e \<Rightarrow>
          if caught e then Inr (fst st, snd st @ [Invalid_product_entry product])
          else Inl e)"

fun products_loop ::
  "pyfloat dict \<times> message list \<Rightarrow> json list \<Rightarrow> error + pyfloat dict \<times> message list" where
  "products_loop st [] = Inr st"
| "products_loop st (product # products) =
     (case process_product st product of
        Inl e \<Rightarrow> Inl e
      | Inr st' \<Rightarrow> products_loop st' products)"

text \<open>The result is the returned catalogue together with the printed messages.\<close>

definition build_price_catalogue :: "json list \<Rightarrow> error + pyfloat dict \<times> message list" where
  "build_price_catalogue products = products_loop ([], []) products"

section \<open>The sales aggregator\<close>

text \<open>
  \<^verbatim>\<open>compute_sales_total\<close> is given the decoded list of sale records and the catalogue.
  The objects it works on: the catalogue (a mutable \<^verbatim>\<open>dict\<close> shared with the caller),
  its two accumulators, and the console.
\<close>

record agg_state =
  catalogue :: "pyfloat dict"
  sale_totals :: "pyfloat dict"
  grand_total :: pyfloat
  printed :: "message list"

text \<open>
  The body of the \<^verbatim>\<open>try\<close>. \<^verbatim>\<open>continue\<close> ends the iteration after the message. The
  first statement that changes an accumulator comes after the test
  \<^verbatim>\<open>sale_id not in sale_totals\<close>, which has hashed \<open>sale_id\<close>; nothing after it raises
  (lemma \<open>accumulate\<close> below), so an exception leaves the accumulators as they were.
\<close>

definition sale_body :: "agg_state \<Rightarrow> json \<Rightarrow> error + agg_state" where
  "sale_body st record =
     ebind (getitem record ''SALE_ID'') (\<lambda>sale_id.
     ebind (getitem record ''Product'') (\<lambda>product_name.
     ebind (getitem record ''Quantity'') (\<lambda>q.
     ebind (py_int q) (\<lambda>quantity.
     ebind (contains (catalogue st) product_name) (\<lambda>found.
     if \<not> found then Inr (st\<lparr>printed := printed st @ [Product_not_found product_name]\<rparr>)
     else
     ebind (subscript (catalogue st) product_name) (\<lambda>price.
     ebind (float_mul_int price quantity) (\<lambda>cost.
     ebind (contains (sale_totals st) sale_id) (\<lambda>known.
     ebind (if \<not> known then setitem (sale_totals st) sale_id 0 else Inr (sale_totals st))
       (\<lambda>totals.
     ebind (subscript totals sale_id) (\<lambda>subtotal.
     ebind (setitem totals sale_id (subtotal + cost)) (\<lambda>totals'.
     Inr (st\<lparr>sale_totals := totals', grand_total := grand_total st + cost\<rparr>))))))))))))"

text \<open>
  One iteration: the state after it, and the exception that leaves the loop, if the
  handler does not catch it.
\<close>

definition process_sale :: "agg_state \<Rightarrow> json \<Rightarrow> agg_state \<times> error option" where
  "process_sale st record =
     (case sale_body st record of
        Inr st' \<Rightarrow> (st', None)
      | Inl e \<Rightarrow>
          if caught e then (st\<lparr>printed := printed st @ [Invalid_sales_record record]\<rparr>, None)
          else (st, Some e))"

fun sales_loop :: "agg_state \<Rightarrow> json list \<Rightarrow> agg_state \<times> error option" where
  "sales_loop st [] = (st, None)"
| "sales_loop st (record # sales) =
     (case process_sale st record of
        (st', None) \<Rightarrow> sales_loop st' sales
      | (st', Some e) \<Rightarrow> (st', Some e))"

text \<open>
  A call of \<^verbatim>\<open>compute_sales_total\<close>, seen from outside: the objects as the call leaves
  them, and the exception that left it, if any.
\<close>

definition run_sales :: "json list \<Rightarrow> pyfloat dict \<Rightarrow> agg_state \<times> error option" where
  "run_sales sales cat =
     sales_loop \<lparr>catalogue = cat, sale_totals = [], grand_total = 0, printed = []\<rparr> sales"

text \<open>
  What the caller receives: the pair \<open>(sale_totals st, grand_total st)\<close> of the final
  state \<open>st\<close> (\<open>Inr st\<close>; the final state also shows the catalogue and the console), or
  the exception \<open>e\<close> (\<open>Inl e\<close>).
\<close>

fun returned :: "agg_state \<times> error option \<Rightarrow> error + agg_state" where
  "returned (st, None) = Inr st"
| "returned (st, Some e) = Inl e"

definition compute_sales_total :: "json list \<Rightarrow> pyfloat dict \<Rightarrow> error + agg_state" where
  "compute_sales_total sales cat = returned (run_sales sales cat)"

section \<open>The report\<close>

text \<open>
  \<^verbatim>\<open>a < b\<close> on dictionary keys: numbers and booleans compare by value (False with
  NaN), strings lexicographically by character code; any other pair, \<^verbatim>\<open>None\<close> with
  \<^verbatim>\<open>None\<close> included, raises \<^verbatim>\<open>TypeError\<close>.
\<close>

fun str_lt :: "string \<Rightarrow> string \<Rightarrow> bool" where
  "str_lt [] [] = False"
| "str_lt [] (d # ds) = True"
| "str_lt (c # cs) [] = False"
| "str_lt (c # cs) (d # ds) = (if c = d then str_lt cs ds else (of_char c :: nat) < of_char d)"

definition key_lt :: "pykey \<Rightarrow> pykey \<Rightarrow> error + bool" where
  "key_lt a b =
     (case key_num a of
        Some x \<Rightarrow> (case key_num b of Some y \<Rightarrow> Inr (float_lt x y) | None \<Rightarrow> Inl TypeError)
      | None \<Rightarrow>
          (case a of
             KStr s \<Rightarrow> (case b of KStr t \<Rightarrow> Inr (str_lt s t) | _ \<Rightarrow> Inl TypeError)
           | _ \<Rightarrow> Inl TypeError))"

text \<open>
  \<^verbatim>\<open>sorted(sale_totals)\<close>, as an insertion sort on \<^verbatim>\<open><\<close>. Python's sort is another
  algorithm with the same outcome on the keys of a dictionary: \<^verbatim>\<open>TypeError\<close> when two
  of them are not comparable (a sort by comparisons has compared every two keys that
  end up next to each other), the keys in ascending order otherwise. With NaN among
  numeric keys no order is ascending; the order Python leaves them in is not modelled.
\<close>

fun insert_key :: "pykey \<Rightarrow> pykey list \<Rightarrow> error + pykey list" where
  "insert_key x [] = Inr [x]"
| "insert_key x (y # ys) =
     ebind (key_lt x y) (\<lambda>less.
     if less then Inr (x # y # ys)
     else ebind (insert_key x ys) (\<lambda>zs. Inr (y # zs)))"

fun py_sorted :: "pykey list \<Rightarrow> error + pykey list" where
  "py_sorted [] = Inr []"
| "py_sorted (x # xs) = ebind (py_sorted xs) (insert_key x)"

text \<open>
  The conversions of the f-strings, \<^verbatim>\<open>{sale_id}\<close>, \<^verbatim>\<open>{x:.2f}\<close> and \<^verbatim>\<open>{x:.6f}\<close>, render
  floats in decimal after rounding the double; they are parameters of the model.
\<close>

record formats =
  id_text :: "pykey \<Rightarrow> string"
  fixed2 :: "pyfloat \<Rightarrow> string"
  fixed6 :: "pyfloat \<Rightarrow> string"

definition header :: string where
  "header = ''SALES SUMMARY'' @ [CHR 0x0A] @ replicate 30 CHR ''-'' @ [CHR 0x0A]"

definition sale_line :: "formats \<Rightarrow> pykey \<Rightarrow> pyfloat \<Rightarrow> string" where
  "sale_line fmt sale_id subtotal =
     ''Sale ID '' @ id_text fmt sale_id @ '': $'' @ fixed2 fmt subtotal @ [CHR 0x0A]"

definition footer :: "formats \<Rightarrow> pyfloat \<Rightarrow> pyfloat \<Rightarrow> string" where
  "footer fmt grand elapsed_time =
     replicate 30 CHR ''-'' @ [CHR 0x0A]
     @ ''TOTAL SALES: $'' @ fixed2 fmt grand @ [CHR 0x0A]
     @ ''Execution Time: '' @ fixed6 fmt elapsed_time @ '' seconds'' @ [CHR 0x0A]"

text \<open>
  The loop over the sorted keys: the strings written to the file, and the exception
  that ended the loop, if any.
\<close>

fun write_lines :: "formats \<Rightarrow> pyfloat dict \<Rightarrow> pykey list \<Rightarrow> string list \<times> error option" where
  "write_lines fmt totals [] = ([], None)"
| "write_lines fmt totals (sale_id # keys) =
     (case dict_lookup totals sale_id of
        None \<Rightarrow> ([], Some KeyError)
      | Some subtotal \<Rightarrow>
          (case write_lines fmt totals keys of
             (written, e) \<Rightarrow> (sale_line fmt sale_id subtotal # written, e)))"

text \<open>
  \<^verbatim>\<open>write_results\<close>: the strings written to \<^verbatim>\<open>SalesResults.txt\<close>, in order, and the
  exception that left the function, if any. The header is written before the keys are
  sorted. The console receives the same text. The parameters \<^verbatim>\<open>sale_totals\<close> and
  \<^verbatim>\<open>grand_total\<close> of the source are \<open>totals\<close> and \<open>grand\<close> here.
\<close>

definition write_results ::
  "formats \<Rightarrow> pyfloat dict \<Rightarrow> pyfloat \<Rightarrow> pyfloat \<Rightarrow> string list \<times> error option" where
  "write_results fmt totals grand elapsed_time =
     (case py_sorted (dict_keys totals) of
        Inl e \<Rightarrow> ([header], Some e)
      | Inr keys \<Rightarrow>
          (case write_lines fmt totals keys of
             (written, Some e) \<Rightarrow> (header # written, Some e)
           | (written, None) \<Rightarrow>
               (header # written @ [footer fmt grand elapsed_time], None)))"

section \<open>Notions used to state the properties\<close>

text \<open>A non-negative real number, as a float.\<close>

fun nonneg_real :: "pyfloat \<Rightarrow> bool" where
  "nonneg_real (Fin r) = (0 \<le> r)"
| "nonneg_real x = False"

text \<open>
  What decides whether two keys are the same key: the value of a number or boolean,
  the key itself otherwise.
\<close>

definition key_class :: "pykey \<Rightarrow> pyfloat + pykey" where
  "key_class k = (case key_num k of Some x \<Rightarrow> Inl x | None \<Rightarrow> Inr k)"

text \<open>A well-formed dictionary holds no key twice.\<close>

fun dict_ok :: "'v dict \<Rightarrow> bool" where
  "dict_ok [] = True"
| "dict_ok ((k, v) # d) = (dict_lookup d k = None \<and> dict_ok d)"

text \<open>
  The effect on \<^verbatim>\<open>sale_totals\<close> of the three statements that accumulate a cost under
  a key: the entry starts from 0 when the key is new.
\<close>

definition add_to :: "pyfloat dict \<Rightarrow> pykey \<Rightarrow> pyfloat \<Rightarrow> pyfloat dict" where
  "add_to d k c = dict_store d k ((case dict_lookup d k of None \<Rightarrow> 0 | Some s \<Rightarrow> s) + c)"

text \<open>
  What a product record asks the catalogue to hold: the outcome of the statements of
  the \<^verbatim>\<open>try\<close> in \<^verbatim>\<open>build_price_catalogue\<close> up to the store, that is the key of the
  title and the converted price. A record is valid when this is not an exception.
\<close>

definition product_entry :: "json \<Rightarrow> error + pykey \<times> pyfloat" where
  "product_entry product =
     ebind (getitem product ''title'') (\<lambda>title.
     ebind (getitem product ''price'') (\<lambda>p.
     ebind (py_float p) (\<lambda>price.
     ebind (py_hash title) (\<lambda>k.
     Inr (k, price)))))"

text \<open>The entries of the valid records of a product list, in input order.\<close>

fun valid_entries :: "json list \<Rightarrow> (pykey \<times> pyfloat) list" where
  "valid_entries [] = []"
| "valid_entries (product # products) =
     (case product_entry product of
        Inr entry \<Rightarrow> entry # valid_entries products
      | Inl e \<Rightarrow> valid_entries products)"

text \<open>The entries whose title is the key \<open>k\<close>, in input order.\<close>

definition occurrences :: "(pykey \<times> pyfloat) list \<Rightarrow> pykey \<Rightarrow> (pykey \<times> pyfloat) list" where
  "occurrences entries k = filter (\<lambda>entry. key_eq (fst entry) k) entries"

text \<open>No title occurs twice among the entries.\<close>

fun unique_titles :: "(pykey \<times> pyfloat) list \<Rightarrow> bool" where
  "unique_titles [] = True"
| "unique_titles (entry # entries) =
     (occurrences entries (fst entry) = [] \<and> unique_titles entries)"

text \<open>Storing entries one after the other.\<close>

definition store_all :: "pyfloat dict \<Rightarrow> (pykey \<times> pyfloat) list \<Rightarrow> pyfloat dict" where
  "store_all d entries = foldl (\<lambda>d entry. dict_store d (fst entry) (snd entry)) d entries"

text \<open>
  The invariant of the loop of \<^verbatim>\<open>compute_sales_total\<close>: no sale identifier is held twice,
  and the grand total is the sum of the subtotals.
\<close>

definition totals_inv :: "agg_state \<Rightarrow> bool" where
  "totals_inv st = (dict_ok (sale_totals st) \<and> grand_total st = sum_list (map snd (sale_totals st)))"

text \<open>
  The order of the report: \<open>a\<close> comes before \<open>b\<close> or beside it when \<^verbatim>\<open>b < a\<close> is
  answered False.
\<close>

definition key_le :: "pykey \<Rightarrow> pykey \<Rightarrow> bool" where
  "key_le a b = (key_lt b a = Inr False)"

text \<open>
  Mappings whose identifiers are all finite numbers (or booleans), or all text.
\<close>

fun finite_value :: "pykey \<Rightarrow> real option" where
  "finite_value (KBool b) = Some (if b then 1 else 0)"
| "finite_value (KInt n) = Some (of_int n)"
| "finite_value (KFloat (Fin r)) = Some r"
| "finite_value k = None"

definition all_numbers :: "pykey list \<Rightarrow> bool" where
  "all_numbers ks = list_all (\<lambda>k. finite_value k \<noteq> None) ks"

fun is_text :: "pykey \<Rightarrow> bool" where
  "is_text (KStr s) = True"
| "is_text k = False"

definition all_text :: "pykey list \<Rightarrow> bool" where
  "all_text ks = list_all is_text ks"

text \<open>The character codes of a text key.\<close>

fun text_of :: "pykey \<Rightarrow> nat list" where
  "text_of (KStr s) = map of_char s"
| "text_of k = []"

section \<open>Properties\<close>

lemma caught_simps:
  "caught KeyError" "caught ValueError" "caught TypeError" "\<not> caught OverflowError"
  by (simp_all add: caught_def)

lemmas run_defs =
  compute_sales_total_def run_sales_def process_sale_def sale_body_def ebind_def contains_def
  subscript_def setitem_def key_eq_def float_mul_int_def float_of_int_def float_limit_def
  caught_def zero_pyfloat_def plus_pyfloat_def

subsection \<open>Keys and dictionaries\<close>

lemma key_eq_class: "key_eq a b \<longleftrightarrow> key_class a = key_class b"
  by (auto simp: key_eq_def key_class_def split: option.splits)

lemma key_eq_refl [simp]: "key_eq k k"
  by (simp add: key_eq_class)

lemma key_eq_sym: "key_eq a b \<Longrightarrow> key_eq b a"
  by (simp add: key_eq_class)

lemma key_eq_trans: "key_eq a b \<Longrightarrow> key_eq b c \<Longrightarrow> key_eq a c"
  by (simp add: key_eq_class)

lemma key_eq_cong: "key_eq a b \<Longrightarrow> key_eq a c = key_eq b c"
  by (simp add: key_eq_class)

lemma dict_lookup_cong: "key_eq a b \<Longrightarrow> dict_lookup d a = dict_lookup d b"
  by (induction d) (auto simp: key_eq_class)

lemma dict_lookup_store:
  "dict_lookup (dict_store d k v) k' = (if key_eq k k' then Some v else dict_lookup d k')"
  by (induction d) (auto simp: key_eq_class)

lemma dict_ok_store: "dict_ok d \<Longrightarrow> dict_ok (dict_store d k v)"
  by (induction d) (auto simp: dict_lookup_store key_eq_class)

lemma length_dict_store:
  "length (dict_store d k v) = (if dict_lookup d k = None then Suc (length d) else length d)"
  by (induction d) (auto split: if_splits)

lemma dict_lookup_key: "k \<in> fst ` set d \<Longrightarrow> dict_lookup d k \<noteq> None"
  by (induction d) force+

lemma lookup_keys: "dict_ok d \<Longrightarrow> map (dict_lookup d) (map fst d) = map Some (map snd d)"
proof (induction d)
  case Nil
  then show ?case by simp
next
  case (Cons a d)
  obtain k v where a: "a = (k, v)" by (cases a)
  have "dict_lookup d k' = dict_lookup ((k, v) # d) k'" if "k' \<in> fst ` set d" for k'
  proof -
    have "\<not> key_eq k k'"
    proof
      assume "key_eq k k'"
      then have "dict_lookup d k' = dict_lookup d k" by (simp add: dict_lookup_cong key_eq_sym)
      moreover have "dict_lookup d k = None" using Cons.prems a by simp
      moreover have "dict_lookup d k' \<noteq> None" using that
        by (rule dict_lookup_key)
      ultimately show False by simp
    qed
    then show ?thesis by simp
  qed
  then have "map (dict_lookup ((k, v) # d)) (map fst d) = map (dict_lookup d) (map fst d)"
    by simp
  then show ?case using Cons a by simp
qed

lemma dict_store_twice: "dict_store (dict_store d k v) k w = dict_store d k w"
  by (induction d) auto

lemma accumulate:
  assumes "py_hash sale_id = Inr k"
  shows "ebind (contains d sale_id) (\<lambda>known.
     ebind (if \<not> known then setitem d sale_id 0 else Inr d) (\<lambda>totals.
     ebind (subscript totals sale_id) (\<lambda>subtotal.
     ebind (setitem totals sale_id (subtotal + cost)) f))) = f (add_to d k cost)"
  using assms
  by (cases "dict_lookup d k")
     (simp_all add: ebind_def contains_def setitem_def subscript_def add_to_def
        dict_lookup_store dict_store_twice)

lemma accumulate_unhashable:
  assumes "py_hash sale_id = Inl e"
  shows "ebind (contains d sale_id) f = Inl e"
  using assms by (simp add: ebind_def contains_def)

subsection \<open>Sequencing and the handlers\<close>

lemma ebind_Inr [simp]: "ebind (Inr x) f = f x"
  by (simp add: ebind_def)

lemma ebind_Inl [simp]: "ebind (Inl e) f = Inl e"
  by (simp add: ebind_def)

lemma ebind_eq_Inr: "ebind m f = Inr y \<longleftrightarrow> (\<exists>x. m = Inr x \<and> f x = Inr y)"
  by (cases m) simp_all

lemma ebind_eq_Inl: "ebind m f = Inl e \<longleftrightarrow> m = Inl e \<or> (\<exists>x. m = Inr x \<and> f x = Inl e)"
  by (cases m) simp_all

lemma getitem_caught: "getitem r n = Inl e \<Longrightarrow> caught e"
  by (cases r) (auto simp: caught_def split: option.splits)

lemma int_of_float_Inl:
  "int_of_float x = Inl e \<Longrightarrow>
     (e = OverflowError \<and> (x = PInf \<or> x = NInf)) \<or> (e = ValueError \<and> x = NaN)"
  by (cases x) auto

lemma py_int_Inl:
  "py_int q = Inl e \<Longrightarrow> caught e \<or> (e = OverflowError \<and> (q = JFloat PInf \<or> q = JFloat NInf))"
  by (cases q) (auto simp: caught_def split: option.splits dest: int_of_float_Inl)

lemma py_hash_caught: "py_hash x = Inl e \<Longrightarrow> caught e"
  by (cases x) (auto simp: caught_def)

lemma contains_caught: "contains d x = Inl e \<Longrightarrow> caught e"
  by (auto simp: contains_def ebind_def dest: py_hash_caught split: sum.splits)

lemma contains_Inr: "contains d x = Inr b \<Longrightarrow> \<exists>k. py_hash x = Inr k \<and> b = (dict_lookup d k \<noteq> None)"
  by (auto simp: contains_def split: sum.splits)

lemma subscript_Inr: "subscript d x = Inr v \<longleftrightarrow> (\<exists>k. py_hash x = Inr k \<and> dict_lookup d k = Some v)"
  by (auto simp: subscript_def split: sum.splits option.splits)

lemma subscript_contains: "subscript d x = Inr v \<Longrightarrow> contains d x = Inr True"
  by (auto simp: subscript_Inr contains_def)

subsection \<open>One sale record\<close>

lemma sum_dict_store_new:
  fixes d :: "pyfloat dict"
  shows "dict_lookup d k = None \<Longrightarrow>
    sum_list (map snd (dict_store d k v)) = sum_list (map snd d) + v"
  by (induction d) (auto simp: ac_simps split: if_splits)

lemma sum_dict_store_old:
  fixes d :: "pyfloat dict"
  shows "dict_lookup d k = Some s \<Longrightarrow>
    sum_list (map snd (dict_store d k (s + c))) = sum_list (map snd d) + c"
  by (induction d) (auto simp: ac_simps split: if_splits)

lemma sum_add_to: "sum_list (map snd (add_to d k c)) = sum_list (map snd d) + c"
  by (cases "dict_lookup d k") (simp_all add: add_to_def sum_dict_store_new sum_dict_store_old)

lemma dict_ok_add_to: "dict_ok d \<Longrightarrow> dict_ok (add_to d k c)"
  by (simp add: add_to_def dict_ok_store)

lemma float_mul_int_Inr:
  "\<bar>n\<bar> < float_limit \<Longrightarrow> float_mul_int x n = Inr (fmul x (Fin (of_int n)))"
  by (simp add: float_mul_int_def float_of_int_def)

lemma float_mul_int_Inl:
  "float_mul_int x n = Inl e \<Longrightarrow> e = OverflowError \<and> float_limit \<le> \<bar>n\<bar>"
  by (auto simp: float_mul_int_def float_of_int_def split: if_splits)

lemma subscript_caught: "subscript d x = Inl e \<Longrightarrow> caught e"
  by (auto simp: subscript_def caught_def dest: py_hash_caught split: sum.splits option.splits)

lemma setitem_caught: "setitem d x v = Inl e \<Longrightarrow> caught e"
  by (auto simp: setitem_def dest: py_hash_caught split: sum.splits)

lemma sale_body_adds:
  assumes "getitem sale ''SALE_ID'' = Inr sale_id"
    and "getitem sale ''Product'' = Inr product_name"
    and "getitem sale ''Quantity'' = Inr q"
    and "py_int q = Inr quantity"
    and price: "subscript (catalogue st) product_name = Inr price"
    and range: "\<bar>quantity\<bar> < float_limit"
    and hash: "py_hash sale_id = Inr k"
  shows "sale_body st sale =
    Inr (st\<lparr>sale_totals := add_to (sale_totals st) k (fmul price (Fin (of_int quantity))),
            grand_total := grand_total st + fmul price (Fin (of_int quantity))\<rparr>)"
  unfolding sale_body_def
  using assms(1-4) price subscript_contains [OF price] float_mul_int_Inr [OF range]
  by (simp add: accumulate [OF hash])

lemma sale_body_Inr:
  assumes "sale_body st sale = Inr st'"
  shows "(\<exists>p. st' = st\<lparr>printed := printed st @ [Product_not_found p]\<rparr>) \<or>
    (\<exists>k c. st' = st\<lparr>sale_totals := add_to (sale_totals st) k c,
                     grand_total := grand_total st + c\<rparr>)"
proof -
  from assms obtain sale_id product_name q quantity found where
    sid: "getitem sale ''SALE_ID'' = Inr sale_id" and
    found: "contains (catalogue st) product_name = Inr found" and
    rest: "(if \<not> found then Inr (st\<lparr>printed := printed st @ [Product_not_found product_name]\<rparr>)
     else
     ebind (subscript (catalogue st) product_name) (\<lambda>price.
     ebind (float_mul_int price quantity) (\<lambda>cost.
     ebind (contains (sale_totals st) sale_id) (\<lambda>known.
     ebind (if \<not> known then setitem (sale_totals st) sale_id 0 else Inr (sale_totals st))
       (\<lambda>totals.
     ebind (subscript totals sale_id) (\<lambda>subtotal.
     ebind (setitem totals sale_id (subtotal + cost)) (\<lambda>totals'.
     Inr (st\<lparr>sale_totals := totals', grand_total := grand_total st + cost\<rparr>)))))))) = Inr st'"
    unfolding sale_body_def by (auto simp: ebind_eq_Inr)
  show ?thesis
  proof (cases found)
    case False
    then show ?thesis using rest by auto
  next
    case True
    show ?thesis
    proof (cases "py_hash sale_id")
      case (Inl e)
      then have "contains (sale_totals st) sale_id = Inl e"
        by (simp add: contains_def)
      then show ?thesis using rest True by (simp add: ebind_eq_Inr)
    next
      case (Inr k)
      show ?thesis using rest True by (auto simp: accumulate [OF Inr] ebind_eq_Inr)
    qed
  qed
qed

text \<open>
  The exceptions of the body that the handler does not catch: \<^verbatim>\<open>int\<close> of an infinite
  quantity, and the product with a quantity beyond the range of a float. Both are
  raised before anything is changed.
\<close>

lemma sale_body_Inl:
  assumes "sale_body st sale = Inl e"
  shows "caught e \<or>
    (e = OverflowError \<and>
      (\<exists>q. getitem sale ''Quantity'' = Inr q \<and>
         (q = JFloat PInf \<or> q = JFloat NInf \<or> (\<exists>n. py_int q = Inr n \<and> float_limit \<le> \<bar>n\<bar>))))"
proof (rule ccontr)
  assume neg: "\<not> ?thesis"
  then have nc: "\<not> caught e" by simp
  from assms nc obtain q where q: "getitem sale ''Quantity'' = Inr q" and
    alt: "py_int q = Inl e \<or>
      (\<exists>quantity price. py_int q = Inr quantity \<and> float_mul_int price quantity = Inl e)"
    unfolding sale_body_def
    by (auto simp: ebind_eq_Inl split: if_splits
        dest: getitem_caught contains_caught subscript_caught setitem_caught)
  from alt show False
  proof
    assume "py_int q = Inl e"
    from py_int_Inl [OF this] nc q neg show False by blast
  next
    assume "\<exists>quantity price. py_int q = Inr quantity \<and> float_mul_int price quantity = Inl e"
    with q neg float_mul_int_Inl show False by blast
  qed
qed

subsection \<open>One iteration and the loop\<close>

lemma process_sale_cases:
  "(\<exists>k c. process_sale st sale =
       (st\<lparr>sale_totals := add_to (sale_totals st) k c, grand_total := grand_total st + c\<rparr>, None))
   \<or> (\<exists>m. process_sale st sale = (st\<lparr>printed := printed st @ [m]\<rparr>, None))
   \<or> process_sale st sale = (st, Some OverflowError)"
proof (cases "sale_body st sale")
  case (Inl e)
  show ?thesis
  proof (cases "caught e")
    case True
    with Inl have "process_sale st sale =
      (st\<lparr>printed := printed st @ [Invalid_sales_record sale]\<rparr>, None)"
      by (simp add: process_sale_def)
    then show ?thesis by blast
  next
    case False
    with sale_body_Inl [OF Inl] have "e = OverflowError" by simp
    with Inl False have "process_sale st sale = (st, Some OverflowError)"
      by (simp add: process_sale_def)
    then show ?thesis by blast
  qed
next
  case (Inr st')
  then have p: "process_sale st sale = (st', None)" by (simp add: process_sale_def)
  from sale_body_Inr [OF Inr] p show ?thesis by auto
qed

lemma process_sale_inv: "totals_inv st \<Longrightarrow> totals_inv (fst (process_sale st sale))"
  using process_sale_cases [of st sale]
  by (auto simp: totals_inv_def sum_add_to dict_ok_add_to)

lemma process_sale_catalogue: "catalogue (fst (process_sale st sale)) = catalogue st"
  using process_sale_cases [of st sale] by auto

lemma process_sale_raises: "snd (process_sale st sale) = Some e \<Longrightarrow> e = OverflowError"
  using process_sale_cases [of st sale] by auto

lemma sales_loop_continue:
  "process_sale st sale = (st', None) \<Longrightarrow> sales_loop st (sale # sales) = sales_loop st' sales"
  by simp

lemma sales_loop_stop:
  "process_sale st sale = (st', Some e) \<Longrightarrow> sales_loop st (sale # sales) = (st', Some e)"
  by simp

lemma sales_loop_inv: "totals_inv st \<Longrightarrow> totals_inv (fst (sales_loop st sales))"
proof (induction sales arbitrary: st)
  case Nil
  then show ?case by simp
next
  case (Cons sale sales)
  obtain st' e where p: "process_sale st sale = (st', e)" by (cases "process_sale st sale")
  with process_sale_inv [OF Cons.prems, of sale] have inv: "totals_inv st'" by simp
  show ?case
  proof (cases e)
    case None
    with p inv Cons.IH show ?thesis by simp
  next
    case (Some x)
    with p inv show ?thesis by simp
  qed
qed

lemma sales_loop_catalogue: "catalogue (fst (sales_loop st sales)) = catalogue st"
proof (induction sales arbitrary: st)
  case Nil
  then show ?case by simp
next
  case (Cons sale sales)
  obtain st' e where p: "process_sale st sale = (st', e)" by (cases "process_sale st sale")
  with process_sale_catalogue [of st sale] have c: "catalogue st' = catalogue st" by simp
  show ?case
  proof (cases e)
    case None
    with p c Cons.IH show ?thesis by simp
  next
    case (Some x)
    with p c show ?thesis by simp
  qed
qed

lemma sales_loop_append:
  "sales_loop st xs = (st', None) \<Longrightarrow> sales_loop st (xs @ ys) = sales_loop st' ys"
proof (induction xs arbitrary: st)
  case Nil
  then show ?case by simp
next
  case (Cons x xs)
  obtain st1 e where p: "process_sale st x = (st1, e)" by (cases "process_sale st x")
  show ?case
  proof (cases e)
    case None
    with p Cons show ?thesis by simp
  next
    case (Some err)
    with p Cons.prems show ?thesis by simp
  qed
qed

lemma sales_loop_raises:
  "snd (sales_loop st sales) = Some e \<Longrightarrow> e = OverflowError"
proof (induction sales arbitrary: st)
  case Nil
  then show ?case by simp
next
  case (Cons sale sales)
  obtain st' e' where p: "process_sale st sale = (st', e')" by (cases "process_sale st sale")
  show ?case
  proof (cases e')
    case None
    with p Cons show ?thesis by simp
  next
    case (Some x)
    with p Cons.prems have "e = x" by simp
    moreover from p Some process_sale_raises [of st sale x] have "x = OverflowError" by simp
    ultimately show ?thesis by simp
  qed
qed

lemma returned_Inr: "returned r = Inr st \<longleftrightarrow> r = (st, None)"
  by (cases r rule: returned.cases) auto

lemma returned_Inl: "returned r = Inl e \<longleftrightarrow> (\<exists>st. r = (st, Some e))"
  by (cases r rule: returned.cases) auto

subsection \<open>Text that \<^verbatim>\<open>int\<close> rejects, and truncation\<close>

lemma in_set_dropWhile: "x \<in> set xs \<Longrightarrow> \<not> P x \<Longrightarrow> x \<in> set (dropWhile P xs)"
  by (induction xs) auto

lemma in_set_strip: "c \<in> set s \<Longrightarrow> \<not> is_space c \<Longrightarrow> c \<in> set (strip s)"
  by (simp add: strip_def in_set_dropWhile)

lemma sign_split_set:
  "sign_split t = (neg, body) \<Longrightarrow> c \<in> set t \<Longrightarrow> c \<noteq> CHR ''-'' \<Longrightarrow> c \<noteq> CHR ''+'' \<Longrightarrow> c \<in> set body"
  by (cases t) (auto split: if_splits)

lemma digitpart_all:
  "digitpart s = (ds, []) \<Longrightarrow> c \<in> set s \<Longrightarrow> is_digit c \<or> c = CHR ''_''"
proof (induction s arbitrary: ds rule: digitpart.induct)
  case 1
  then show ?case by simp
next
  case (2 c')
  then show ?case by (auto split: if_splits)
next
  case (3 c' u cs)
  then show ?case
    by (auto split: if_splits prod.splits)
qed

lemma int_of_str_chars:
  assumes "int_of_str s = Some n" and "c \<in> set s"
  shows "is_digit c \<or> is_space c \<or> c = CHR ''+'' \<or> c = CHR ''-'' \<or> c = CHR ''_''"
proof (rule ccontr)
  assume neg: "\<not> ?thesis"
  obtain sg body where sp: "sign_split (strip s) = (sg, body)" by (cases "sign_split (strip s)")
  obtain ds rest where dp: "digitpart body = (ds, rest)" by (cases "digitpart body")
  from assms(1) sp dp have "rest = []"
    by (auto simp: int_of_str_def split: if_splits)
  moreover have "c \<in> set body"
    using neg assms(2) sp by (auto intro: sign_split_set in_set_strip)
  ultimately show False using dp neg digitpart_all by blast
qed

lemma int_of_str_point:
  "CHR ''.'' \<in> set s \<or> CHR ''e'' \<in> set s \<or> CHR ''E'' \<in> set s \<Longrightarrow> int_of_str s = None"
proof (rule ccontr)
  assume a: "CHR ''.'' \<in> set s \<or> CHR ''e'' \<in> set s \<or> CHR ''E'' \<in> set s" and "int_of_str s \<noteq> None"
  then obtain n where n: "int_of_str s = Some n" by auto
  from a show False
    using int_of_str_chars [OF n, of "CHR ''.''"] int_of_str_chars [OF n, of "CHR ''e''"]
      int_of_str_chars [OF n, of "CHR ''E''"]
    by (auto simp: is_digit_def is_space_def)
qed

lemma trunc_toward_zero:
  "(0 \<le> x \<longrightarrow> of_int (trunc x) \<le> x \<and> x < of_int (trunc x) + 1) \<and>
   (x \<le> 0 \<longrightarrow> x \<le> of_int (trunc x) \<and> of_int (trunc x) - 1 < x)"
  by (auto simp: trunc_def) linarith+

lemmas parse_defs =
  int_of_str_def float_of_str_def decimal_def float_of_real_def spells_def same_letter_def
  exponent_def scale10_def strip_def is_space_def is_digit_def digit_val_def digits_value_def
  signed_def float_limit_def

subsection \<open>A record at its place in the run\<close>

lemma run_sales_catalogue: "catalogue (fst (run_sales sales cat)) = cat"
  by (simp add: run_sales_def sales_loop_catalogue)

lemma run_sales_reached:
  assumes "run_sales pre cat = (st, None)"
  shows "run_sales (pre @ sale # rest) cat = sales_loop st (sale # rest)"
    and "catalogue st = cat"
proof -
  from assms show "run_sales (pre @ sale # rest) cat = sales_loop st (sale # rest)"
    unfolding run_sales_def by (rule sales_loop_append)
  from run_sales_catalogue [of pre cat] assms show "catalogue st = cat" by simp
qed

lemma process_sale_adds:
  assumes "getitem sale ''SALE_ID'' = Inr sale_id"
    and "getitem sale ''Product'' = Inr product_name"
    and "getitem sale ''Quantity'' = Inr q"
    and "py_int q = Inr quantity"
    and "subscript (catalogue st) product_name = Inr price"
    and "\<bar>quantity\<bar> < float_limit"
    and "py_hash sale_id = Inr k"
  shows "process_sale st sale =
    (st\<lparr>sale_totals := add_to (sale_totals st) k (fmul price (Fin (of_int quantity))),
        grand_total := grand_total st + fmul price (Fin (of_int quantity))\<rparr>, None)"
  by (simp add: process_sale_def sale_body_adds [OF assms])

lemma process_sale_bad_quantity:
  assumes q: "getitem sale ''Quantity'' = Inr q" and bad: "py_int q = Inl e" and c: "caught e"
  shows "process_sale st sale = (st\<lparr>printed := printed st @ [Invalid_sales_record sale]\<rparr>, None)"
proof -
  have "\<exists>e'. sale_body st sale = Inl e' \<and> caught e'"
    unfolding sale_body_def
    using q bad c
    by (cases "getitem sale ''SALE_ID''"; cases "getitem sale ''Product''")
       (auto dest: getitem_caught)
  then show ?thesis by (auto simp: process_sale_def)
qed

lemma process_sale_unknown_product:
  assumes "getitem sale ''Product'' = Inr p" and "contains (catalogue st) p \<noteq> Inr True"
  shows "(\<exists>m. process_sale st sale = (st\<lparr>printed := printed st @ [m]\<rparr>, None))
    \<or> process_sale st sale = (st, Some OverflowError)"
proof -
  show ?thesis
  proof (cases "sale_body st sale")
    case (Inl e)
    show ?thesis
    proof (cases "caught e")
      case True
      with Inl have "process_sale st sale =
        (st\<lparr>printed := printed st @ [Invalid_sales_record sale]\<rparr>, None)"
        by (simp add: process_sale_def)
      then show ?thesis by blast
    next
      case False
      with sale_body_Inl [OF Inl] have "e = OverflowError" by simp
      with Inl False show ?thesis by (simp add: process_sale_def)
    qed
  next
    case (Inr st')
    then obtain found where
      found: "contains (catalogue st) p = Inr found" and
      rest: "found \<or> st' = st\<lparr>printed := printed st @ [Product_not_found p]\<rparr>"
      unfolding sale_body_def using assms(1)
      by (auto simp: ebind_eq_Inr split: if_splits)
    with assms(2) have "st' = st\<lparr>printed := printed st @ [Product_not_found p]\<rparr>" by auto
    with Inr have "process_sale st sale =
      (st\<lparr>printed := printed st @ [Product_not_found p]\<rparr>, None)"
      by (simp add: process_sale_def)
    then show ?thesis by blast
  qed
qed

lemma process_sale_raised_quantity:
  assumes "snd (process_sale st sale) = Some e"
  shows "\<exists>q. getitem sale ''Quantity'' = Inr q \<and>
     (q = JFloat PInf \<or> q = JFloat NInf \<or> (\<exists>n. py_int q = Inr n \<and> float_limit \<le> \<bar>n\<bar>))"
proof (cases "sale_body st sale")
  case (Inl e')
  with assms have "\<not> caught e'" by (auto simp: process_sale_def split: if_splits)
  with sale_body_Inl [OF Inl] show ?thesis by simp
next
  case (Inr st')
  with assms show ?thesis by (simp add: process_sale_def)
qed

lemma sales_loop_raised_quantity:
  "snd (sales_loop st sales) = Some e \<Longrightarrow>
     \<exists>sale\<in>set sales. \<exists>q. getitem sale ''Quantity'' = Inr q \<and>
       (q = JFloat PInf \<or> q = JFloat NInf \<or> (\<exists>n. py_int q = Inr n \<and> float_limit \<le> \<bar>n\<bar>))"
proof (induction sales arbitrary: st)
  case Nil
  then show ?case by simp
next
  case (Cons sale sales)
  obtain st' e' where p: "process_sale st sale = (st', e')" by (cases "process_sale st sale")
  show ?case
  proof (cases e')
    case None
    with p Cons.prems have "snd (sales_loop st' sales) = Some e" by simp
    from Cons.IH [OF this] show ?thesis by auto
  next
    case (Some x)
    with p have "snd (process_sale st sale) = Some x" by simp
    from process_sale_raised_quantity [OF this] show ?thesis by auto
  qed
qed


subsection \<open>A valid sale record adds its cost\<close>

text \<open>
  Claim C1, as the code has it. Let a run of \<^verbatim>\<open>compute_sales_total\<close> reach a sale record
  in the state \<open>st\<close>, the records before it being \<open>pre\<close>. Let its three fields be
  present, let \<^verbatim>\<open>int\<close> convert the quantity, and let the product be a key of the
  catalogue with price \<open>price\<close>. If moreover the sale identifier is hashable (with key
  \<open>k\<close>) and the quantity is within the range that converts to a float, then the run
  goes on from the state \<open>st'\<close> in which \<open>k\<close> holds the old subtotal, or 0 when \<open>k\<close> is
  new, plus \<open>cost = price * quantity\<close>, every other key holds what it held, and the
  grand total has grown by the same cost. If the record is the last one, \<open>st'\<close> is what
  the call returns.
\<close>

theorem valid_sale_adds_cost:
  assumes "run_sales pre cat = (st, None)"
    and "getitem sale ''SALE_ID'' = Inr sale_id"
    and "getitem sale ''Product'' = Inr product_name"
    and "getitem sale ''Quantity'' = Inr q"
    and "py_int q = Inr quantity"
    and "subscript cat product_name = Inr price"
    and "py_hash sale_id = Inr k"
    and "\<bar>quantity\<bar> < float_limit"
  shows "\<exists>cost st'.
      cost = fmul price (Fin (of_int quantity))
    \<and> st' = st\<lparr>sale_totals :=
                 dict_store (sale_totals st) k
                   ((case dict_lookup (sale_totals st) k of None \<Rightarrow> 0 | Some s \<Rightarrow> s) + cost),
               grand_total := grand_total st + cost\<rparr>
    \<and> dict_lookup (sale_totals st') k =
        Some ((case dict_lookup (sale_totals st) k of None \<Rightarrow> 0 | Some s \<Rightarrow> s) + cost)
    \<and> (\<forall>k'. \<not> key_eq k k' \<longrightarrow> dict_lookup (sale_totals st') k' = dict_lookup (sale_totals st) k')
    \<and> run_sales (pre @ sale # rest) cat = sales_loop st' rest
    \<and> compute_sales_total (pre @ sale # rest) cat = returned (sales_loop st' rest)
    \<and> compute_sales_total (pre @ [sale]) cat = Inr st'"
proof -
  let ?cost = "fmul price (Fin (of_int quantity))"
  let ?st = "st\<lparr>sale_totals := add_to (sale_totals st) k ?cost,
               grand_total := grand_total st + ?cost\<rparr>"
  have cat: "catalogue st = cat"
    using assms(1) by (rule run_sales_reached)
  have step: "process_sale st sale = (?st, None)"
    using assms(2-5) assms(6) [folded cat] assms(8) assms(7) by (rule process_sale_adds)
  have run: "run_sales (pre @ sale # rest') cat = sales_loop ?st rest'" for rest'
    using run_sales_reached(1) [OF assms(1)] step by simp
  from run [of rest] run [of "[]"] show ?thesis
    by (simp add: compute_sales_total_def add_to_def dict_lookup_store)
qed

theorem valid_sale_adds_cost_witness:
  "run_sales
     [JDict [(''SALE_ID'', JInt 1), (''Product'', JStr ''Widget''), (''Quantity'', JInt 4)]]
     [(KStr ''Widget'', Fin (5 / 2))]
   = (\<lparr>catalogue = [(KStr ''Widget'', Fin (5 / 2))], sale_totals = [(KInt 1, Fin 10)],
       grand_total = Fin 10, printed = []\<rparr>, None)
   \<and> compute_sales_total
     [JDict [(''SALE_ID'', JInt 1), (''Product'', JStr ''Widget''), (''Quantity'', JInt 4)],
      JDict [(''SALE_ID'', JFloat (Fin 1)), (''Product'', JStr ''Widget''),
             (''Quantity'', JStr ''2'')]]
     [(KStr ''Widget'', Fin (5 / 2))]
   = Inr \<lparr>catalogue = [(KStr ''Widget'', Fin (5 / 2))], sale_totals = [(KInt 1, Fin 15)],
          grand_total = Fin 15, printed = []\<rparr>
   \<and> compute_sales_total
     [JDict [(''SALE_ID'', JInt 1), (''Product'', JStr ''Widget''), (''Quantity'', JInt 4)],
      JDict [(''SALE_ID'', JFloat (Fin 1)), (''Product'', JStr ''Widget''),
             (''Quantity'', JStr ''2'')],
      JDict [(''SALE_ID'', JStr ''A7''), (''Product'', JStr ''Widget''), (''Quantity'', JInt 1)]]
     [(KStr ''Widget'', Fin (5 / 2))]
   = Inr \<lparr>catalogue = [(KStr ''Widget'', Fin (5 / 2))],
          sale_totals = [(KInt 1, Fin 15), (KStr ''A7'', Fin (5 / 2))],
          grand_total = Fin (35 / 2), printed = []\<rparr>"
proof -
  let ?cat = "[(KStr ''Widget'', Fin (5 / 2))]"
  let ?pre = "[JDict [(''SALE_ID'', JInt 1), (''Product'', JStr ''Widget''), (''Quantity'', JInt 4)]]"
  let ?sale = "JDict [(''SALE_ID'', JFloat (Fin 1)), (''Product'', JStr ''Widget''),
             (''Quantity'', JStr ''2'')]"
  let ?rest = "[JDict [(''SALE_ID'', JStr ''A7''), (''Product'', JStr ''Widget''),
             (''Quantity'', JInt 1)]]"
  have h0: "run_sales ?pre ?cat
   = (\<lparr>catalogue = ?cat, sale_totals = [(KInt 1, Fin 10)],
       grand_total = Fin 10, printed = []\<rparr>, None)"
    by (simp add: run_defs)
  have h1: "getitem ?sale ''SALE_ID'' = Inr (JFloat (Fin 1))" by simp
  have h2: "getitem ?sale ''Product'' = Inr (JStr ''Widget'')" by simp
  have h3: "getitem ?sale ''Quantity'' = Inr (JStr ''2'')" by simp
  have h4: "py_int (JStr ''2'') = Inr 2" by (simp add: parse_defs)
  have h5: "subscript ?cat (JStr ''Widget'') = Inr (Fin (5 / 2))"
    by (simp add: subscript_def key_eq_def)
  have h6: "py_hash (JFloat (Fin 1)) = Inr (KFloat (Fin 1))" by simp
  have h7: "\<bar>2 :: int\<bar> < float_limit" by (simp add: float_limit_def)
  from valid_sale_adds_cost [OF h0 h1 h2 h3 h4 h5 h6 h7, of ?rest]
  obtain st' where
    st': "st' = \<lparr>catalogue = ?cat, sale_totals = [(KInt 1, Fin 10)],
           grand_total = Fin 10, printed = []\<rparr>\<lparr>sale_totals :=
                 dict_store [(KInt 1, Fin 10)] (KFloat (Fin 1))
                   ((case dict_lookup [(KInt 1, Fin 10)] (KFloat (Fin 1)) of
                       None \<Rightarrow> 0 | Some s \<Rightarrow> s) + fmul (Fin (5 / 2)) (Fin (of_int 2))),
               grand_total := Fin 10 + fmul (Fin (5 / 2)) (Fin (of_int 2))\<rparr>"
    and r1: "compute_sales_total (?pre @ ?sale # ?rest) ?cat = returned (sales_loop st' ?rest)"
    and r2: "compute_sales_total (?pre @ [?sale]) ?cat = Inr st'"
    by auto
  from st' have "st' = \<lparr>catalogue = ?cat, sale_totals = [(KInt 1, Fin 15)],
          grand_total = Fin 15, printed = []\<rparr>"
    by (simp add: key_eq_def plus_pyfloat_def)
  with r1 r2 h0 show ?thesis
    by (simp add: run_defs)
qed

text \<open>
  Claim C1 as stated asks nothing of the sale identifier and bounds no quantity. A
  record whose \<^verbatim>\<open>SALE_ID\<close> is a list has all three fields, an integer quantity and a
  catalogued product; the test \<^verbatim>\<open>sale_id not in sale_totals\<close> raises \<^verbatim>\<open>TypeError\<close>, the
  handler skips the record, and nothing is added to any total. A record with the
  integer quantity \<open>2^1024\<close> has them too; \<^verbatim>\<open>price * quantity\<close> raises
  \<^verbatim>\<open>OverflowError\<close>, and the run ends with nothing added.
\<close>

theorem valid_record_not_added:
  "compute_sales_total
     [JDict [(''SALE_ID'', JList [JInt 1]), (''Product'', JStr ''Widget''), (''Quantity'', JInt 4)]]
     [(KStr ''Widget'', Fin (5 / 2))]
   = Inr \<lparr>catalogue = [(KStr ''Widget'', Fin (5 / 2))], sale_totals = [], grand_total = Fin 0,
          printed = [Invalid_sales_record
            (JDict [(''SALE_ID'', JList [JInt 1]), (''Product'', JStr ''Widget''),
                    (''Quantity'', JInt 4)])]\<rparr>
   \<and> run_sales
     [JDict [(''SALE_ID'', JInt 1), (''Product'', JStr ''Widget''), (''Quantity'', JInt (2 ^ 1024))]]
     [(KStr ''Widget'', Fin (5 / 2))]
   = (\<lparr>catalogue = [(KStr ''Widget'', Fin (5 / 2))], sale_totals = [], grand_total = Fin 0,
        printed = []\<rparr>, Some OverflowError)"
  by (simp add: run_defs)

subsection \<open>The grand total is the sum of the subtotals\<close>

text \<open>
  Claim C2. Whenever \<^verbatim>\<open>compute_sales_total\<close> returns, the returned mapping holds no key
  twice, every key of it looks up to a subtotal, and the returned grand total is the
  sum over the keys of their subtotals. Sums of finite values are those of the reals;
  an infinite or NaN subtotal makes the grand total and the sum the same infinity or
  NaN.
\<close>

theorem grand_total_is_sum_of_subtotals:
  assumes "compute_sales_total sales cat = Inr st"
  shows "dict_ok (sale_totals st)
    \<and> (\<forall>k\<in>set (dict_keys (sale_totals st)). \<exists>v. dict_lookup (sale_totals st) k = Some v)
    \<and> grand_total st = (\<Sum>k\<leftarrow>dict_keys (sale_totals st). the (dict_lookup (sale_totals st) k))"
proof -
  let ?d = "sale_totals st"
  have "totals_inv \<lparr>catalogue = cat, sale_totals = [], grand_total = 0, printed = []\<rparr>"
    by (simp add: totals_inv_def)
  then have "totals_inv (fst (run_sales sales cat))"
    unfolding run_sales_def by (rule sales_loop_inv)
  moreover from assms have "run_sales sales cat = (st, None)"
    by (simp add: compute_sales_total_def returned_Inr)
  ultimately have inv: "totals_inv st" by simp
  then have ok: "dict_ok ?d" and total: "grand_total st = sum_list (map snd ?d)"
    by (simp_all add: totals_inv_def)
  have "map (the \<circ> dict_lookup ?d) (map fst ?d) = map the (map (dict_lookup ?d) (map fst ?d))"
    by simp
  also have "\<dots> = map the (map Some (map snd ?d))"
    by (simp only: lookup_keys [OF ok])
  also have "\<dots> = map snd ?d"
    by (simp add: comp_def)
  finally have "map (\<lambda>k. the (dict_lookup ?d k)) (dict_keys ?d) = map snd ?d"
    by (simp add: dict_keys_def comp_def)
  moreover have "\<forall>k\<in>set (dict_keys ?d). \<exists>v. dict_lookup ?d k = Some v"
    using dict_lookup_key [of _ ?d] by (auto simp: dict_keys_def)
  ultimately show ?thesis using ok total by simp
qed

theorem grand_total_is_sum_of_subtotals_witness:
  "compute_sales_total
     [JDict [(''SALE_ID'', JInt 1), (''Product'', JStr ''Widget''), (''Quantity'', JInt 4)],
      JDict [(''SALE_ID'', JStr ''A7''), (''Product'', JStr ''Widget''), (''Quantity'', JStr ''2'')],
      JDict [(''SALE_ID'', JInt 1), (''Product'', JStr ''Widget''), (''Quantity'', JInt 2)],
      JDict [(''SALE_ID'', JInt 2), (''Product'', JStr ''Gadget''), (''Quantity'', JInt 1)]]
     [(KStr ''Widget'', Fin (5 / 2))]
   = Inr \<lparr>catalogue = [(KStr ''Widget'', Fin (5 / 2))],
          sale_totals = [(KInt 1, Fin 15), (KStr ''A7'', Fin 5)],
          grand_total = Fin 20,
          printed = [Product_not_found (JStr ''Gadget'')]\<rparr>
   \<and> Fin 20 = (\<Sum>k\<leftarrow>dict_keys [(KInt 1, Fin 15), (KStr ''A7'', Fin 5)].
          the (dict_lookup [(KInt 1, Fin 15), (KStr ''A7'', Fin 5)] k))"
proof -
  have run: "compute_sales_total
     [JDict [(''SALE_ID'', JInt 1), (''Product'', JStr ''Widget''), (''Quantity'', JInt 4)],
      JDict [(''SALE_ID'', JStr ''A7''), (''Product'', JStr ''Widget''), (''Quantity'', JStr ''2'')],
      JDict [(''SALE_ID'', JInt 1), (''Product'', JStr ''Widget''), (''Quantity'', JInt 2)],
      JDict [(''SALE_ID'', JInt 2), (''Product'', JStr ''Gadget''), (''Quantity'', JInt 1)]]
     [(KStr ''Widget'', Fin (5 / 2))]
   = Inr \<lparr>catalogue = [(KStr ''Widget'', Fin (5 / 2))],
          sale_totals = [(KInt 1, Fin 15), (KStr ''A7'', Fin 5)],
          grand_total = Fin 20,
          printed = [Product_not_found (JStr ''Gadget'')]\<rparr>"
    by (simp add: run_defs parse_defs)
  from grand_total_is_sum_of_subtotals [OF run] run show ?thesis by simp
qed

subsection \<open>Products that are not in the catalogue\<close>

text \<open>
  Claim C5. Let a run of \<^verbatim>\<open>compute_sales_total\<close> reach, in the state \<open>st\<close>, a sale record
  whose \<^verbatim>\<open>Product\<close> is not a key of the catalogue (the membership test answers False,
  or raises because the product is not hashable). Then the per-sale mapping, the grand
  total and the catalogue stay as they are in \<open>st\<close>: either a message is printed and the
  run goes on with the next record, or, when the quantity of the record is an infinite
  float, \<^verbatim>\<open>int\<close> raises \<^verbatim>\<open>OverflowError\<close> and the run ends in the state \<open>st\<close>. And for every
  input, whether the call returns or raises, it leaves the catalogue as it was given,
  entry for entry.
\<close>

theorem unknown_product_changes_nothing:
  "(run_sales pre cat = (st, None) \<longrightarrow>
    getitem sale ''Product'' = Inr p \<longrightarrow> contains cat p \<noteq> Inr True \<longrightarrow>
      (\<exists>st'. sale_totals st' = sale_totals st
         \<and> grand_total st' = grand_total st
         \<and> catalogue st' = catalogue st
         \<and> (run_sales (pre @ sale # rest) cat = sales_loop st' rest
              \<or> run_sales (pre @ sale # rest) cat = (st', Some OverflowError)))
      \<and> sale_totals (fst (run_sales (pre @ [sale]) cat)) = sale_totals st
      \<and> grand_total (fst (run_sales (pre @ [sale]) cat)) = grand_total st)
   \<and> catalogue (fst (run_sales sales cat)) = cat"
proof (intro conjI impI)
  assume pre: "run_sales pre cat = (st, None)"
    and p: "getitem sale ''Product'' = Inr p" and unknown: "contains cat p \<noteq> Inr True"
  have cat: "catalogue st = cat" using pre by (rule run_sales_reached)
  have reach: "run_sales (pre @ sale # rest') cat = sales_loop st (sale # rest')" for rest'
    using pre by (rule run_sales_reached)
  from process_sale_unknown_product [OF p unknown [folded cat]]
  consider (passed) m where "process_sale st sale = (st\<lparr>printed := printed st @ [m]\<rparr>, None)"
    | (raised) "process_sale st sale = (st, Some OverflowError)"
    by blast
  then have "(\<exists>st'. sale_totals st' = sale_totals st
         \<and> grand_total st' = grand_total st
         \<and> catalogue st' = catalogue st
         \<and> (run_sales (pre @ sale # rest) cat = sales_loop st' rest
              \<or> run_sales (pre @ sale # rest) cat = (st', Some OverflowError)))
      \<and> sale_totals (fst (run_sales (pre @ [sale]) cat)) = sale_totals st
      \<and> grand_total (fst (run_sales (pre @ [sale]) cat)) = grand_total st"
  proof cases
    case (passed m)
    let ?st = "st\<lparr>printed := printed st @ [m]\<rparr>"
    from passed have "run_sales (pre @ sale # rest') cat = sales_loop ?st rest'" for rest'
      by (simp add: reach)
    from this [of rest] this [of "[]"] show ?thesis
      by (intro conjI exI [of _ ?st]) simp_all
  next
    case raised
    then have "run_sales (pre @ sale # rest') cat = (st, Some OverflowError)" for rest'
      by (simp add: reach)
    from this [of rest] this [of "[]"] show ?thesis
      by (intro conjI exI [of _ st]) simp_all
  qed
  then show "\<exists>st'. sale_totals st' = sale_totals st
         \<and> grand_total st' = grand_total st
         \<and> catalogue st' = catalogue st
         \<and> (run_sales (pre @ sale # rest) cat = sales_loop st' rest
              \<or> run_sales (pre @ sale # rest) cat = (st', Some OverflowError))"
    and "sale_totals (fst (run_sales (pre @ [sale]) cat)) = sale_totals st"
    and "grand_total (fst (run_sales (pre @ [sale]) cat)) = grand_total st"
    by blast+
next
  show "catalogue (fst (run_sales sales cat)) = cat"
    by (rule run_sales_catalogue)
qed

theorem unknown_product_changes_nothing_witness:
  "run_sales
     [JDict [(''SALE_ID'', JInt 1), (''Product'', JStr ''Widget''), (''Quantity'', JInt 6)]]
     [(KStr ''Widget'', Fin (5 / 2))]
   = (\<lparr>catalogue = [(KStr ''Widget'', Fin (5 / 2))], sale_totals = [(KInt 1, Fin 15)],
       grand_total = Fin 15, printed = []\<rparr>, None)
   \<and> contains [(KStr ''Widget'', Fin (5 / 2))] (JStr ''Gadget'') = Inr False
   \<and> run_sales
     [JDict [(''SALE_ID'', JInt 1), (''Product'', JStr ''Widget''), (''Quantity'', JInt 6)],
      JDict [(''SALE_ID'', JInt 2), (''Product'', JStr ''Gadget''), (''Quantity'', JInt 1)]]
     [(KStr ''Widget'', Fin (5 / 2))]
   = (\<lparr>catalogue = [(KStr ''Widget'', Fin (5 / 2))], sale_totals = [(KInt 1, Fin 15)],
       grand_total = Fin 15, printed = [Product_not_found (JStr ''Gadget'')]\<rparr>, None)
   \<and> run_sales
     [JDict [(''SALE_ID'', JInt 1), (''Product'', JStr ''Widget''), (''Quantity'', JInt 6)],
      JDict [(''SALE_ID'', JInt 2), (''Product'', JStr ''Gadget''), (''Quantity'', JFloat PInf)]]
     [(KStr ''Widget'', Fin (5 / 2))]
   = (\<lparr>catalogue = [(KStr ''Widget'', Fin (5 / 2))], sale_totals = [(KInt 1, Fin 15)],
       grand_total = Fin 15, printed = []\<rparr>, Some OverflowError)"
proof -
  let ?cat = "[(KStr ''Widget'', Fin (5 / 2))]"
  let ?pre = "[JDict [(''SALE_ID'', JInt 1), (''Product'', JStr ''Widget''), (''Quantity'', JInt 6)]]"
  let ?sale = "JDict [(''SALE_ID'', JInt 2), (''Product'', JStr ''Gadget''), (''Quantity'', JInt 1)]"
  let ?inf = "JDict [(''SALE_ID'', JInt 2), (''Product'', JStr ''Gadget''),
      (''Quantity'', JFloat PInf)]"
  let ?st = "\<lparr>catalogue = ?cat, sale_totals = [(KInt 1, Fin 15)],
       grand_total = Fin 15, printed = []\<rparr>"
  have h0: "run_sales ?pre ?cat = (?st, None)"
    by (simp add: run_defs)
  have h1: "getitem ?sale ''Product'' = Inr (JStr ''Gadget'')" by simp
  have h1': "getitem ?inf ''Product'' = Inr (JStr ''Gadget'')" by simp
  have h2: "contains ?cat (JStr ''Gadget'') = Inr False"
    by (simp add: contains_def key_eq_def)
  then have h2': "contains ?cat (JStr ''Gadget'') \<noteq> Inr True" by simp
  from unknown_product_changes_nothing [of ?pre ?cat ?st ?sale "JStr ''Gadget''" "[]" "[]"]
    unknown_product_changes_nothing [of ?pre ?cat ?st ?inf "JStr ''Gadget''" "[]" "[]"]
    h0 h1 h1' h2 h2'
  show ?thesis
    by (simp add: run_defs)
qed

subsection \<open>Running the aggregation again\<close>

text \<open>
  Claim C8. The function keeps no state between calls and leaves its arguments as they
  were, so a second call on the same sales and on the catalogue as the first call left
  it returns the same mapping and the same grand total (and prints the same messages).
\<close>

theorem second_run_same_result:
  assumes "compute_sales_total sales cat = Inr st"
  shows "compute_sales_total sales (catalogue st) = Inr st"
proof -
  from assms have "run_sales sales cat = (st, None)"
    by (simp add: compute_sales_total_def returned_Inr)
  with run_sales_catalogue [of sales cat] have "catalogue st = cat" by simp
  with assms show ?thesis by simp
qed

theorem second_run_same_result_witness:
  "compute_sales_total
     [JDict [(''SALE_ID'', JInt 1), (''Product'', JStr ''Widget''), (''Quantity'', JInt 4)],
      JDict [(''SALE_ID'', JInt 1), (''Product'', JStr ''Widget''), (''Quantity'', JStr ''abc'')]]
     [(KStr ''Widget'', Fin (5 / 2))]
   = Inr \<lparr>catalogue = [(KStr ''Widget'', Fin (5 / 2))], sale_totals = [(KInt 1, Fin 10)],
          grand_total = Fin 10,
          printed = [Invalid_sales_record
            (JDict [(''SALE_ID'', JInt 1), (''Product'', JStr ''Widget''),
                    (''Quantity'', JStr ''abc'')])]\<rparr>
   \<and> compute_sales_total
     [JDict [(''SALE_ID'', JInt 1), (''Product'', JStr ''Widget''), (''Quantity'', JInt 4)],
      JDict [(''SALE_ID'', JInt 1), (''Product'', JStr ''Widget''), (''Quantity'', JStr ''abc'')]]
     (catalogue \<lparr>catalogue = [(KStr ''Widget'', Fin (5 / 2))], sale_totals = [(KInt 1, Fin 10)],
          grand_total = Fin 10,
          printed = [Invalid_sales_record
            (JDict [(''SALE_ID'', JInt 1), (''Product'', JStr ''Widget''),
                    (''Quantity'', JStr ''abc'')])]\<rparr>)
   = Inr \<lparr>catalogue = [(KStr ''Widget'', Fin (5 / 2))], sale_totals = [(KInt 1, Fin 10)],
          grand_total = Fin 10,
          printed = [Invalid_sales_record
            (JDict [(''SALE_ID'', JInt 1), (''Product'', JStr ''Widget''),
                    (''Quantity'', JStr ''abc'')])]\<rparr>"
proof -
  have run: "compute_sales_total
     [JDict [(''SALE_ID'', JInt 1), (''Product'', JStr ''Widget''), (''Quantity'', JInt 4)],
      JDict [(''SALE_ID'', JInt 1), (''Product'', JStr ''Widget''), (''Quantity'', JStr ''abc'')]]
     [(KStr ''Widget'', Fin (5 / 2))]
   = Inr \<lparr>catalogue = [(KStr ''Widget'', Fin (5 / 2))], sale_totals = [(KInt 1, Fin 10)],
          grand_total = Fin 10,
          printed = [Invalid_sales_record
            (JDict [(''SALE_ID'', JInt 1), (''Product'', JStr ''Widget''),
                    (''Quantity'', JStr ''abc'')])]\<rparr>"
    by (simp add: run_defs parse_defs)
  from second_run_same_result [OF run] run show ?thesis by (intro conjI)
qed

subsection \<open>Quantities that are not whole numbers\<close>

text \<open>
  Claim C9. Let a run of \<^verbatim>\<open>compute_sales_total\<close> reach a sale record in the state
  \<open>st\<close>. A quantity given as a finite float \<open>x\<close> is accepted: \<^verbatim>\<open>int\<close> truncates it toward
  zero (\<open>trunc x\<close> lies between 0 and \<open>x\<close>, less than 1 away from \<open>x\<close>), and for a
  record whose other fields are in order the run goes on from the state in which the
  price times the truncated value has been added to the subtotal of the sale and to
  the grand total. Given as text, a number with a decimal point or an exponent is
  refused by \<^verbatim>\<open>int\<close>: the record is reported as invalid and the run goes on with the
  totals as they were.
\<close>

theorem fractional_quantity:
  assumes "run_sales pre cat = (st, None)"
  shows "(getitem sale ''SALE_ID'' = Inr sale_id \<longrightarrow> py_hash sale_id = Inr k \<longrightarrow>
    getitem sale ''Product'' = Inr product_name \<longrightarrow>
    subscript cat product_name = Inr price \<longrightarrow>
    getitem sale ''Quantity'' = Inr (JFloat (Fin x)) \<longrightarrow> \<bar>trunc x\<bar> < float_limit \<longrightarrow>
      (\<exists>cost st'. cost = fmul price (Fin (of_int (trunc x)))
        \<and> st' = st\<lparr>sale_totals :=
                     dict_store (sale_totals st) k
                       ((case dict_lookup (sale_totals st) k of None \<Rightarrow> 0 | Some s \<Rightarrow> s) + cost),
                   grand_total := grand_total st + cost\<rparr>
        \<and> run_sales (pre @ sale # rest) cat = sales_loop st' rest
        \<and> compute_sales_total (pre @ sale # rest) cat = returned (sales_loop st' rest)
        \<and> compute_sales_total (pre @ [sale]) cat = Inr st'))
   \<and> (0 \<le> x \<longrightarrow> of_int (trunc x) \<le> x \<and> x < of_int (trunc x) + 1)
   \<and> (x \<le> 0 \<longrightarrow> x \<le> of_int (trunc x) \<and> of_int (trunc x) - 1 < x)
   \<and> (getitem sale' ''Quantity'' = Inr (JStr s) \<longrightarrow>
      CHR ''.'' \<in> set s \<or> CHR ''e'' \<in> set s \<or> CHR ''E'' \<in> set s \<longrightarrow>
        run_sales (pre @ sale' # rest) cat =
          sales_loop (st\<lparr>printed := printed st @ [Invalid_sales_record sale']\<rparr>) rest
      \<and> compute_sales_total (pre @ sale' # rest) cat =
          returned (sales_loop (st\<lparr>printed := printed st @ [Invalid_sales_record sale']\<rparr>) rest)
      \<and> compute_sales_total (pre @ [sale']) cat =
          Inr (st\<lparr>printed := printed st @ [Invalid_sales_record sale']\<rparr>))"
proof -
  have cat: "catalogue st = cat" using assms by (rule run_sales_reached)
  have reach: "run_sales (pre @ r # rest') cat = sales_loop st (r # rest')" for r rest'
    using assms by (rule run_sales_reached)
  have a: "\<exists>cost st'. cost = fmul price (Fin (of_int (trunc x)))
        \<and> st' = st\<lparr>sale_totals :=
                     dict_store (sale_totals st) k
                       ((case dict_lookup (sale_totals st) k of None \<Rightarrow> 0 | Some s \<Rightarrow> s) + cost),
                   grand_total := grand_total st + cost\<rparr>
        \<and> run_sales (pre @ sale # rest) cat = sales_loop st' rest
        \<and> compute_sales_total (pre @ sale # rest) cat = returned (sales_loop st' rest)
        \<and> compute_sales_total (pre @ [sale]) cat = Inr st'"
    if h: "getitem sale ''SALE_ID'' = Inr sale_id" "py_hash sale_id = Inr k"
      "getitem sale ''Product'' = Inr product_name"
      "subscript cat product_name = Inr price"
      "getitem sale ''Quantity'' = Inr (JFloat (Fin x))" "\<bar>trunc x\<bar> < float_limit"
  proof -
    have "py_int (JFloat (Fin x)) = Inr (trunc x)" by simp
    with h have "process_sale st sale =
      (st\<lparr>sale_totals := add_to (sale_totals st) k (fmul price (Fin (of_int (trunc x)))),
          grand_total := grand_total st + fmul price (Fin (of_int (trunc x)))\<rparr>, None)"
      by (intro process_sale_adds [where q = "JFloat (Fin x)"]) (simp_all add: cat)
    then have "run_sales (pre @ sale # rest') cat =
      sales_loop (st\<lparr>sale_totals := add_to (sale_totals st) k (fmul price (Fin (of_int (trunc x)))),
          grand_total := grand_total st + fmul price (Fin (of_int (trunc x)))\<rparr>) rest'" for rest'
      by (simp add: reach)
    from this [of rest] this [of "[]"] show ?thesis
      by (simp add: compute_sales_total_def add_to_def)
  qed
  have b: "run_sales (pre @ sale' # rest) cat =
          sales_loop (st\<lparr>printed := printed st @ [Invalid_sales_record sale']\<rparr>) rest
      \<and> compute_sales_total (pre @ sale' # rest) cat =
          returned (sales_loop (st\<lparr>printed := printed st @ [Invalid_sales_record sale']\<rparr>) rest)
      \<and> compute_sales_total (pre @ [sale']) cat =
          Inr (st\<lparr>printed := printed st @ [Invalid_sales_record sale']\<rparr>)"
    if h: "getitem sale' ''Quantity'' = Inr (JStr s)"
      "CHR ''.'' \<in> set s \<or> CHR ''e'' \<in> set s \<or> CHR ''E'' \<in> set s"
  proof -
    have "py_int (JStr s) = Inl ValueError"
      using int_of_str_point [OF h(2)] by simp
    with h(1) have "process_sale st sale' =
      (st\<lparr>printed := printed st @ [Invalid_sales_record sale']\<rparr>, None)"
      by (rule process_sale_bad_quantity) (simp add: caught_def)
    then have "run_sales (pre @ sale' # rest') cat =
      sales_loop (st\<lparr>printed := printed st @ [Invalid_sales_record sale']\<rparr>) rest'" for rest'
      by (simp add: reach)
    from this [of rest] this [of "[]"] show ?thesis
      by (simp add: compute_sales_total_def)
  qed
  from a b trunc_toward_zero [of x] show ?thesis by blast
qed

theorem fractional_quantity_witness:
  "run_sales [] [(KStr ''Widget'', Fin (5 / 2))]
   = (\<lparr>catalogue = [(KStr ''Widget'', Fin (5 / 2))], sale_totals = [], grand_total = Fin 0,
       printed = []\<rparr>, None)
   \<and> trunc 4.7 = 4
   \<and> compute_sales_total
     [JDict [(''SALE_ID'', JInt 1), (''Product'', JStr ''Widget''), (''Quantity'', JFloat (Fin 4.7))]]
     [(KStr ''Widget'', Fin (5 / 2))]
   = Inr \<lparr>catalogue = [(KStr ''Widget'', Fin (5 / 2))], sale_totals = [(KInt 1, Fin 10)],
          grand_total = Fin 10, printed = []\<rparr>
   \<and> compute_sales_total
     [JDict [(''SALE_ID'', JInt 1), (''Product'', JStr ''Widget''), (''Quantity'', JStr ''4.7'')]]
     [(KStr ''Widget'', Fin (5 / 2))]
   = Inr \<lparr>catalogue = [(KStr ''Widget'', Fin (5 / 2))], sale_totals = [], grand_total = Fin 0,
          printed = [Invalid_sales_record
            (JDict [(''SALE_ID'', JInt 1), (''Product'', JStr ''Widget''),
                    (''Quantity'', JStr ''4.7'')])]\<rparr>"
proof -
  let ?cat = "[(KStr ''Widget'', Fin (5 / 2))]"
  let ?st = "\<lparr>catalogue = ?cat, sale_totals = [], grand_total = Fin 0, printed = []\<rparr>"
  let ?sale = "JDict [(''SALE_ID'', JInt 1), (''Product'', JStr ''Widget''),
    (''Quantity'', JFloat (Fin 4.7))]"
  let ?text = "JDict [(''SALE_ID'', JInt 1), (''Product'', JStr ''Widget''),
    (''Quantity'', JStr ''4.7'')]"
  have h0: "run_sales [] ?cat = (?st, None)"
    by (simp add: run_defs)
  have t: "trunc 4.7 = 4" by (simp add: trunc_def)
  from fractional_quantity [OF h0, of ?sale "JInt 1" "KInt 1" "JStr ''Widget''" "Fin (5 / 2)"
      "4.7" "[]" ?text "''4.7''"] h0 t
  show ?thesis
    by (simp add: subscript_def key_eq_def float_limit_def zero_pyfloat_def plus_pyfloat_def)
qed

subsection \<open>Exceptions the handler does not catch\<close>

text \<open>
  The only exception that leaves \<^verbatim>\<open>compute_sales_total\<close> is \<^verbatim>\<open>OverflowError\<close>, raised by
  \<^verbatim>\<open>int\<close> of an infinite quantity or by \<^verbatim>\<open>price * quantity\<close> with a quantity beyond the
  range of a float; without such a quantity the function returns.
\<close>

lemma compute_sales_total_raises:
  "compute_sales_total sales cat = Inl e \<Longrightarrow> e = OverflowError"
proof -
  assume "compute_sales_total sales cat = Inl e"
  then have "snd (run_sales sales cat) = Some e"
    by (auto simp: compute_sales_total_def returned_Inl)
  then show ?thesis
    unfolding run_sales_def by (rule sales_loop_raises)
qed

lemma compute_sales_total_returns:
  assumes "\<forall>sale\<in>set sales. \<forall>q. getitem sale ''Quantity'' = Inr q \<longrightarrow>
     q \<noteq> JFloat PInf \<and> q \<noteq> JFloat NInf \<and> (\<forall>n. py_int q = Inr n \<longrightarrow> \<bar>n\<bar> < float_limit)"
  shows "\<exists>st. compute_sales_total sales cat = Inr st"
proof (cases "compute_sales_total sales cat")
  case (Inl e)
  then have "snd (run_sales sales cat) = Some e"
    by (auto simp: compute_sales_total_def returned_Inl)
  then have "\<exists>sale\<in>set sales. \<exists>q. getitem sale ''Quantity'' = Inr q \<and>
       (q = JFloat PInf \<or> q = JFloat NInf \<or> (\<exists>n. py_int q = Inr n \<and> float_limit \<le> \<bar>n\<bar>))"
    unfolding run_sales_def by (rule sales_loop_raised_quantity)
  then obtain sale q where "sale \<in> set sales" "getitem sale ''Quantity'' = Inr q"
    "q = JFloat PInf \<or> q = JFloat NInf \<or> (\<exists>n. py_int q = Inr n \<and> float_limit \<le> \<bar>n\<bar>)"
    by blast
  with assms have False by fastforce
  then show ?thesis ..
next
  case (Inr st)
  then show ?thesis by blast
qed

text \<open>
  Claim C3 says that \<^verbatim>\<open>compute_sales_total\<close> returns normally for every sales sequence and
  every catalogue. The handler names \<^verbatim>\<open>KeyError\<close>, \<^verbatim>\<open>ValueError\<close> and \<^verbatim>\<open>TypeError\<close>. For a
  catalogued product and the JSON integer \<open>10^400\<close> as quantity, \<^verbatim>\<open>price * quantity\<close>
  raises \<^verbatim>\<open>OverflowError\<close>, which leaves the loop and the function: no result is
  returned.
\<close>

theorem huge_quantity_raises:
  "compute_sales_total
     [JDict [(''SALE_ID'', JInt 1), (''Product'', JStr ''Widget''), (''Quantity'', JInt (10 ^ 400))]]
     [(KStr ''Widget'', Fin (5 / 2))]
   = Inl OverflowError"
  by (simp add: run_defs)

subsection \<open>Negative quantities\<close>

text \<open>
  Claim C10: no sign check is made on quantities. With the catalogue
  \<^verbatim>\<open>{"Widget": 2.5}\<close> and the one sale \<^verbatim>\<open>{"SALE_ID": 1, "Product": "Widget", "Quantity": -2}\<close>
  the cost \<open>-5\<close> is accumulated: the subtotal of sale 1 and the grand total are
  both \<open>-5\<close>, strictly negative.
\<close>

theorem negative_quantity_negative_totals:
  "\<exists>st. compute_sales_total
          [JDict [(''SALE_ID'', JInt 1), (''Product'', JStr ''Widget''), (''Quantity'', JInt (- 2))]]
          [(KStr ''Widget'', Fin (5 / 2))] = Inr st
      \<and> sale_totals st = [(KInt 1, Fin (- 5))]
      \<and> dict_lookup (sale_totals st) (KInt 1) = Some (Fin (- 5))
      \<and> grand_total st = Fin (- 5)
      \<and> float_lt (grand_total st) 0"
  by (simp add: run_defs)

subsection \<open>The catalogue builder\<close>

lemma product_body_entry:
  "product_body c product =
     (case product_entry product of
        Inl e \<Rightarrow> Inl e
      | Inr entry \<Rightarrow> Inr (dict_store c (fst entry) (snd entry)))"
  unfolding product_body_def product_entry_def setitem_def
  by (auto simp: ebind_def split: sum.splits)

lemma process_product_Inr:
  assumes "process_product st product = Inr st'"
  shows "fst st' = store_all (fst st) (valid_entries [product])"
  using assms
  by (auto simp: process_product_def product_body_entry store_all_def split: sum.splits if_splits)

lemma store_all_Cons:
  "store_all d (entry # entries) = store_all (dict_store d (fst entry) (snd entry)) entries"
  by (simp add: store_all_def)

lemma store_all_append: "store_all d (xs @ ys) = store_all (store_all d xs) ys"
  by (simp add: store_all_def)

lemma valid_entries_Cons:
  "valid_entries (product # products) = valid_entries [product] @ valid_entries products"
  by (simp split: sum.splits)

lemma products_loop_Inr:
  "products_loop st products = Inr st' \<Longrightarrow> fst st' = store_all (fst st) (valid_entries products)"
proof (induction products arbitrary: st)
  case Nil
  then show ?case by (simp add: store_all_def)
next
  case (Cons product products)
  from Cons.prems obtain st1 where
    step: "process_product st product = Inr st1" and
    rest: "products_loop st1 products = Inr st'"
    by (auto split: sum.splits)
  have "fst st' = store_all (fst st1) (valid_entries products)"
    using rest by (rule Cons.IH)
  also have "fst st1 = store_all (fst st) (valid_entries [product])"
    using step by (rule process_product_Inr)
  finally show ?case
    by (subst valid_entries_Cons) (simp only: store_all_append)
qed

lemma build_price_catalogue_Inr:
  "build_price_catalogue products = Inr (cat, out) \<Longrightarrow> cat = store_all [] (valid_entries products)"
  unfolding build_price_catalogue_def by (drule products_loop_Inr) simp

lemma store_all_snoc:
  "store_all d (entries @ [entry]) = dict_store (store_all d entries) (fst entry) (snd entry)"
  by (simp add: store_all_def)

lemma lookup_store_all:
  "dict_lookup (store_all d entries) k =
     (if occurrences entries k = [] then dict_lookup d k
      else Some (snd (last (occurrences entries k))))"
proof (induction entries rule: rev_induct)
  case Nil
  then show ?case by (simp add: store_all_def occurrences_def)
next
  case (snoc entry entries)
  then show ?case
    by (simp add: store_all_snoc dict_lookup_store occurrences_def)
qed

lemma length_store_all:
  assumes "unique_titles entries" and "\<forall>entry\<in>set entries. dict_lookup d (fst entry) = None"
  shows "length (store_all d entries) = length d + length entries"
  using assms
proof (induction entries arbitrary: d)
  case Nil
  then show ?case by (simp add: store_all_def)
next
  case (Cons entry entries)
  let ?d = "dict_store d (fst entry) (snd entry)"
  have fresh: "dict_lookup d (fst entry) = None" using Cons.prems(2) by simp
  have "\<forall>e\<in>set entries. dict_lookup ?d (fst e) = None"
  proof
    fix e assume e: "e \<in> set entries"
    have "\<not> key_eq (fst entry) (fst e)"
    proof
      assume "key_eq (fst entry) (fst e)"
      then have "key_eq (fst e) (fst entry)" by (rule key_eq_sym)
      with e have "e \<in> set (occurrences entries (fst entry))" by (simp add: occurrences_def)
      with Cons.prems(1) show False by simp
    qed
    with Cons.prems(2) e show "dict_lookup ?d (fst e) = None"
      by (simp add: dict_lookup_store)
  qed
  with Cons.prems(1) have "length (store_all ?d entries) = length ?d + length entries"
    by (intro Cons.IH) simp_all
  with fresh show ?case by (simp add: store_all_Cons length_dict_store)
qed

lemma set_dict_store:
  "(k, v) \<in> set (dict_store d k' v') \<Longrightarrow> (k, v) \<in> set d \<or> (v = v' \<and> key_eq k k')"
  by (induction d) (auto split: if_splits)

lemma set_store_all:
  "(k, v) \<in> set (store_all d entries) \<Longrightarrow>
     (k, v) \<in> set d \<or> (\<exists>t. (t, v) \<in> set entries \<and> key_eq t k)"
proof (induction entries arbitrary: d)
  case Nil
  then show ?case by (simp add: store_all_def)
next
  case (Cons entry entries)
  from Cons.prems have "(k, v) \<in> set (store_all (dict_store d (fst entry) (snd entry)) entries)"
    by (simp add: store_all_Cons)
  from Cons.IH [OF this] show ?case
  proof
    assume "(k, v) \<in> set (dict_store d (fst entry) (snd entry))"
    from set_dict_store [OF this] show ?thesis
      by (cases entry) (auto dest: key_eq_sym)
  next
    assume "\<exists>t. (t, v) \<in> set entries \<and> key_eq t k"
    then show ?thesis by auto
  qed
qed

lemma valid_entries_set:
  "(t, v) \<in> set (valid_entries products) \<Longrightarrow>
     \<exists>product\<in>set products. product_entry product = Inr (t, v)"
  by (induction products) (auto split: sum.splits)

lemma product_entry_Inr:
  "product_entry product = Inr (t, v) \<Longrightarrow>
     \<exists>title p. getitem product ''title'' = Inr title \<and> getitem product ''price'' = Inr p
       \<and> py_float p = Inr v \<and> py_hash title = Inr t"
  by (auto simp: product_entry_def ebind_eq_Inr)

lemmas build_defs =
  build_price_catalogue_def process_product_def product_body_def product_entry_def ebind_def
  setitem_def key_eq_def float_of_int_def caught_def occurrences_def

text \<open>
  Claim C4. Whenever \<^verbatim>\<open>build_price_catalogue\<close> returns a catalogue: a title that one or
  more valid records carry (two or more, in particular) is mapped to the price of the
  last of them in input order; a title that no valid record carries is not in the
  catalogue; and when no title occurs twice among the valid records, the catalogue has
  as many entries as there are valid records.
\<close>

theorem last_valid_price_wins:
  assumes "build_price_catalogue products = Inr (cat, out)"
  shows "(occurrences (valid_entries products) k \<noteq> [] \<longrightarrow>
           dict_lookup cat k = Some (snd (last (occurrences (valid_entries products) k))))
    \<and> (occurrences (valid_entries products) k = [] \<longrightarrow> dict_lookup cat k = None)
    \<and> (unique_titles (valid_entries products) \<longrightarrow> length cat = length (valid_entries products))"
proof -
  have cat: "cat = store_all [] (valid_entries products)"
    using assms by (rule build_price_catalogue_Inr)
  have "length (store_all [] (valid_entries products)) = length (valid_entries products)"
    if "unique_titles (valid_entries products)"
    using length_store_all [OF that, of "[]"] by simp
  then show ?thesis
    by (simp add: cat lookup_store_all)
qed


theorem last_valid_price_wins_witness:
  "build_price_catalogue
     [JDict [(''title'', JStr ''Widget''), (''price'', JStr ''2.50'')],
      JDict [(''title'', JStr ''Gadget'')],
      JDict [(''title'', JStr ''Widget''), (''price'', JInt 3)],
      JDict [(''title'', JStr ''Widget''), (''price'', JStr ''abc'')]]
   = Inr ([(KStr ''Widget'', Fin 3)],
          [Invalid_product_entry (JDict [(''title'', JStr ''Gadget'')]),
           Invalid_product_entry (JDict [(''title'', JStr ''Widget''), (''price'', JStr ''abc'')])])
   \<and> occurrences (valid_entries
     [JDict [(''title'', JStr ''Widget''), (''price'', JStr ''2.50'')],
      JDict [(''title'', JStr ''Gadget'')],
      JDict [(''title'', JStr ''Widget''), (''price'', JInt 3)],
      JDict [(''title'', JStr ''Widget''), (''price'', JStr ''abc'')]]) (KStr ''Widget'')
     = [(KStr ''Widget'', Fin (5 / 2)), (KStr ''Widget'', Fin 3)]
   \<and> dict_lookup [(KStr ''Widget'', Fin 3)] (KStr ''Widget'') = Some (Fin 3)
   \<and> dict_lookup [(KStr ''Widget'', Fin 3)] (KStr ''Gadget'') = None
   \<and> build_price_catalogue
     [JDict [(''title'', JStr ''Widget''), (''price'', JStr ''2.50'')],
      JDict [(''title'', JStr ''Gadget'')],
      JDict [(''title'', JStr ''Nut''), (''price'', JFloat (Fin 0.5))]]
   = Inr ([(KStr ''Widget'', Fin (5 / 2)), (KStr ''Nut'', Fin (1 / 2))],
          [Invalid_product_entry (JDict [(''title'', JStr ''Gadget'')])])
   \<and> unique_titles (valid_entries
     [JDict [(''title'', JStr ''Widget''), (''price'', JStr ''2.50'')],
      JDict [(''title'', JStr ''Gadget'')],
      JDict [(''title'', JStr ''Nut''), (''price'', JFloat (Fin 0.5))]])
   \<and> length [(KStr ''Widget'', Fin (5 / 2)), (KStr ''Nut'', Fin (1 / 2))] = length (valid_entries
     [JDict [(''title'', JStr ''Widget''), (''price'', JStr ''2.50'')],
      JDict [(''title'', JStr ''Gadget'')],
      JDict [(''title'', JStr ''Nut''), (''price'', JFloat (Fin 0.5))]])"
proof -
  let ?dup = "[JDict [(''title'', JStr ''Widget''), (''price'', JStr ''2.50'')],
      JDict [(''title'', JStr ''Gadget'')],
      JDict [(''title'', JStr ''Widget''), (''price'', JInt 3)],
      JDict [(''title'', JStr ''Widget''), (''price'', JStr ''abc'')]]"
  let ?uniq = "[JDict [(''title'', JStr ''Widget''), (''price'', JStr ''2.50'')],
      JDict [(''title'', JStr ''Gadget'')],
      JDict [(''title'', JStr ''Nut''), (''price'', JFloat (Fin 0.5))]]"
  have dup: "build_price_catalogue ?dup
   = Inr ([(KStr ''Widget'', Fin 3)],
          [Invalid_product_entry (JDict [(''title'', JStr ''Gadget'')]),
           Invalid_product_entry (JDict [(''title'', JStr ''Widget''), (''price'', JStr ''abc'')])])"
    by (simp add: build_defs parse_defs)
  have uniq: "build_price_catalogue ?uniq
   = Inr ([(KStr ''Widget'', Fin (5 / 2)), (KStr ''Nut'', Fin (1 / 2))],
          [Invalid_product_entry (JDict [(''title'', JStr ''Gadget'')])])"
    by (simp add: build_defs parse_defs)
  have occ: "occurrences (valid_entries ?dup) (KStr ''Widget'')
     = [(KStr ''Widget'', Fin (5 / 2)), (KStr ''Widget'', Fin 3)]"
    by (simp add: build_defs parse_defs)
  have none: "occurrences (valid_entries ?dup) (KStr ''Gadget'') = []"
    by (simp add: build_defs parse_defs)
  have ut: "unique_titles (valid_entries ?uniq)"
    by (simp add: build_defs parse_defs)
  from last_valid_price_wins [OF dup, of "KStr ''Widget''"]
    last_valid_price_wins [OF dup, of "KStr ''Gadget''"]
    last_valid_price_wins [OF uniq, of "KStr ''Widget''"]
    dup uniq occ none ut
  show ?thesis by simp
qed

text \<open>
  Claim C6 says that every stored price is a non-negative real number. The builder
  converts the price with \<^verbatim>\<open>float\<close> and stores it; it looks neither at the sign nor
  at whether the value is finite. The three products
  \<^verbatim>\<open>{"title": "Widget", "price": "-2.50"}\<close>, \<^verbatim>\<open>{"title": "Nut", "price": "nan"}\<close> and
  \<^verbatim>\<open>{"title": "Bolt", "price": 1e999}\<close> (which \<^verbatim>\<open>json.load\<close> decodes to infinity) are
  stored with the prices \<open>-2.5\<close>, NaN and infinity.
\<close>

theorem negative_price_is_stored:
  "build_price_catalogue
     [JDict [(''title'', JStr ''Widget''), (''price'', JStr ''-2.50'')],
      JDict [(''title'', JStr ''Nut''), (''price'', JStr ''nan'')],
      JDict [(''title'', JStr ''Bolt''), (''price'', JFloat PInf)]]
   = Inr ([(KStr ''Widget'', Fin (- 5 / 2)), (KStr ''Nut'', NaN), (KStr ''Bolt'', PInf)], [])
   \<and> dict_lookup [(KStr ''Widget'', Fin (- 5 / 2)), (KStr ''Nut'', NaN), (KStr ''Bolt'', PInf)]
        (KStr ''Widget'') = Some (Fin (- 5 / 2))
   \<and> \<not> nonneg_real (Fin (- 5 / 2)) \<and> \<not> nonneg_real NaN \<and> \<not> nonneg_real PInf
   \<and> float_lt (Fin (- 5 / 2)) 0"
  by (simp add: build_defs parse_defs zero_pyfloat_def)

text \<open>
  Claim C6, as the code has it: every price stored in the returned catalogue is the
  float \<^verbatim>\<open>float(product["price"])\<close> of a valid record of the input whose title is that
  key; it may be negative, infinite or NaN. So the stored prices are non-negative real
  numbers when all convertible prices of the input are.
\<close>

theorem stored_price_is_converted_input_price:
  assumes "build_price_catalogue products = Inr (cat, out)" and "(k, v) \<in> set cat"
  shows "(\<exists>product\<in>set products. \<exists>title p t.
            getitem product ''title'' = Inr title \<and> getitem product ''price'' = Inr p
          \<and> py_float p = Inr v \<and> py_hash title = Inr t \<and> key_eq t k)
    \<and> ((\<forall>product\<in>set products. \<forall>p w.
            getitem product ''price'' = Inr p \<longrightarrow> py_float p = Inr w \<longrightarrow> nonneg_real w)
        \<longrightarrow> nonneg_real v)"
proof -
  have "cat = store_all [] (valid_entries products)"
    using assms(1) by (rule build_price_catalogue_Inr)
  with assms(2) obtain t where "(t, v) \<in> set (valid_entries products)" and t: "key_eq t k"
    by (auto dest: set_store_all)
  then obtain product where product: "product \<in> set products" "product_entry product = Inr (t, v)"
    by (auto dest: valid_entries_set)
  from product_entry_Inr [OF product(2)] obtain title p where
    "getitem product ''title'' = Inr title" "getitem product ''price'' = Inr p"
    "py_float p = Inr v" "py_hash title = Inr t"
    by blast
  with product(1) t show ?thesis by blast
qed

theorem stored_price_is_converted_input_price_witness:
  "build_price_catalogue [JDict [(''title'', JStr ''Widget''), (''price'', JStr ''-2.50'')]]
   = Inr ([(KStr ''Widget'', Fin (- 5 / 2))], [])
   \<and> (KStr ''Widget'', Fin (- 5 / 2)) \<in> set [(KStr ''Widget'', Fin (- 5 / 2))]
   \<and> (\<exists>title p t.
        getitem (JDict [(''title'', JStr ''Widget''), (''price'', JStr ''-2.50'')]) ''title''
          = Inr title
      \<and> getitem (JDict [(''title'', JStr ''Widget''), (''price'', JStr ''-2.50'')]) ''price''
          = Inr p
      \<and> py_float p = Inr (Fin (- 5 / 2)) \<and> py_hash title = Inr t \<and> key_eq t (KStr ''Widget''))
   \<and> build_price_catalogue [JDict [(''title'', JStr ''Widget''), (''price'', JStr ''2.50'')]]
   = Inr ([(KStr ''Widget'', Fin (5 / 2))], [])
   \<and> py_float (JStr ''2.50'') = Inr (Fin (5 / 2))
   \<and> nonneg_real (Fin (5 / 2))"
proof -
  have run: "build_price_catalogue
      [JDict [(''title'', JStr ''Widget''), (''price'', JStr ''-2.50'')]]
    = Inr ([(KStr ''Widget'', Fin (- 5 / 2))], [])"
    by (simp add: build_defs parse_defs)
  have mem: "(KStr ''Widget'', Fin (- 5 / 2)) \<in> set [(KStr ''Widget'', Fin (- 5 / 2))]"
    by simp
  have run': "build_price_catalogue
      [JDict [(''title'', JStr ''Widget''), (''price'', JStr ''2.50'')]]
    = Inr ([(KStr ''Widget'', Fin (5 / 2))], [])"
    by (simp add: build_defs parse_defs)
  have mem': "(KStr ''Widget'', Fin (5 / 2)) \<in> set [(KStr ''Widget'', Fin (5 / 2))]"
    by simp
  have conv: "py_float (JStr ''2.50'') = Inr (Fin (5 / 2))"
    by (simp add: parse_defs)
  from stored_price_is_converted_input_price [OF run mem]
    stored_price_is_converted_input_price [OF run' mem'] run mem run' conv
  show ?thesis by simp
qed

subsection \<open>The report\<close>

lemma is_textD: "is_text k \<Longrightarrow> \<exists>s. k = KStr s"
  by (cases k) simp_all

lemma str_lt_lex: "str_lt s t \<longleftrightarrow> (map of_char s :: nat list) < map of_char t"
  by (induction s t rule: str_lt.induct) auto

lemma insert_key_linorder:
  fixes f :: "pykey \<Rightarrow> 'a::linorder"
  assumes "\<forall>y\<in>set ys. key_lt x y = Inr (f x < f y)" and "sorted (map f ys)"
  shows "\<exists>zs. insert_key x ys = Inr zs \<and> mset zs = mset (x # ys) \<and> sorted (map f zs)"
  using assms
proof (induction ys)
  case Nil
  then show ?case by simp
next
  case (Cons y ys)
  show ?case
  proof (cases "f x < f y")
    case True
    with Cons.prems show ?thesis by auto
  next
    case False
    from Cons.prems have "\<exists>zs. insert_key x ys = Inr zs \<and> mset zs = mset (x # ys) \<and> sorted (map f zs)"
      by (intro Cons.IH) simp_all
    then obtain zs where zs: "insert_key x ys = Inr zs" "mset zs = mset (x # ys)" "sorted (map f zs)"
      by blast
    from zs(2) have "set zs = insert x (set ys)"
      by (metis mset_eq_setD list.simps(15))
    with False Cons.prems(2) have "\<forall>z\<in>set zs. f y \<le> f z" by auto
    with zs False Cons.prems(1) show ?thesis by simp
  qed
qed

lemma py_sorted_linorder:
  fixes f :: "pykey \<Rightarrow> 'a::linorder"
  assumes "\<forall>x\<in>set ks. \<forall>y\<in>set ks. key_lt x y = Inr (f x < f y)"
  shows "\<exists>ss. py_sorted ks = Inr ss \<and> mset ss = mset ks \<and> sorted (map f ss)"
  using assms
proof (induction ks)
  case Nil
  then show ?case by simp
next
  case (Cons k ks)
  then obtain ss where ss: "py_sorted ks = Inr ss" "mset ss = mset ks" "sorted (map f ss)"
    by auto
  from ss(2) have "set ss = set ks" by (rule mset_eq_setD)
  with Cons.prems have "\<forall>y\<in>set ss. key_lt k y = Inr (f k < f y)" by simp
  from insert_key_linorder [OF this ss(3)] ss(1,2) show ?case by auto
qed

lemma finite_value_key_num:
  "finite_value k = Some r \<Longrightarrow> key_num k = Some (Fin r)"
  by (cases k rule: finite_value.cases) auto

lemma key_lt_numbers:
  assumes "finite_value a \<noteq> None" and "finite_value b \<noteq> None"
  shows "key_lt a b = Inr (the (finite_value a) < the (finite_value b))"
proof -
  from assms obtain x y where "finite_value a = Some x" "finite_value b = Some y"
    by auto
  then show ?thesis
    by (simp add: key_lt_def finite_value_key_num)
qed

lemma key_lt_text: "key_lt (KStr s) (KStr t) = Inr ((map of_char s :: nat list) < map of_char t)"
  by (simp add: key_lt_def str_lt_lex)

lemma key_lt_is_text:
  "is_text x \<Longrightarrow> is_text y \<Longrightarrow> key_lt x y = Inr (text_of x < text_of y)"
  by (cases x; cases y) (simp_all add: key_lt_text)

lemma py_sorted_same_kind:
  assumes "all_numbers ks \<or> all_text ks"
  shows "\<exists>ss. py_sorted ks = Inr ss \<and> mset ss = mset ks \<and> sorted_wrt key_le ss"
  using assms
proof
  assume "all_numbers ks"
  then have num: "\<forall>k\<in>set ks. finite_value k \<noteq> None"
    by (simp add: all_numbers_def list_all_iff)
  then have "\<forall>x\<in>set ks. \<forall>y\<in>set ks. key_lt x y = Inr (the (finite_value x) < the (finite_value y))"
    by (simp add: key_lt_numbers)
  from py_sorted_linorder [OF this] obtain ss where
    ss: "py_sorted ks = Inr ss" "mset ss = mset ks" "sorted (map (\<lambda>k. the (finite_value k)) ss)"
    by blast
  from ss(2) have "set ss = set ks" by (rule mset_eq_setD)
  with num have "\<forall>x\<in>set ss. \<forall>y\<in>set ss. key_le x y = (the (finite_value x) \<le> the (finite_value y))"
    by (auto simp: key_le_def key_lt_numbers)
  with ss(3) have "sorted_wrt key_le ss"
    by (simp add: sorted_wrt_map sorted_wrt_iff_nth_less)
  with ss(1,2) show ?thesis by blast
next
  assume "all_text ks"
  then have strs: "\<forall>k\<in>set ks. is_text k"
    by (simp add: all_text_def list_all_iff)
  then have "\<forall>x\<in>set ks. \<forall>y\<in>set ks. key_lt x y = Inr (text_of x < text_of y)"
    by (simp add: key_lt_is_text)
  from py_sorted_linorder [OF this] obtain ss where
    ss: "py_sorted ks = Inr ss" "mset ss = mset ks" "sorted (map text_of ss)"
    by blast
  from ss(2) have "set ss = set ks" by (rule mset_eq_setD)
  with strs have "\<forall>x\<in>set ss. \<forall>y\<in>set ss. key_le x y = (text_of x \<le> text_of y)"
    by (auto simp: key_le_def key_lt_is_text)
  with ss(3) have "sorted_wrt key_le ss"
    by (simp add: sorted_wrt_map sorted_wrt_iff_nth_less)
  with ss(1,2) show ?thesis by blast
qed

lemma write_lines_ok:
  assumes "\<forall>k\<in>set ks. dict_lookup d k \<noteq> None"
  shows "write_lines fmt d ks = (map (\<lambda>k. sale_line fmt k (the (dict_lookup d k))) ks, None)"
  using assms by (induction ks) auto

lemma write_results_same_kind:
  assumes "all_numbers (dict_keys d) \<or> all_text (dict_keys d)"
  shows "\<exists>ss. mset ss = mset (dict_keys d) \<and> sorted_wrt key_le ss
    \<and> write_results fmt d grand elapsed_time =
        (header # map (\<lambda>k. sale_line fmt k (the (dict_lookup d k))) ss
           @ [footer fmt grand elapsed_time], None)"
proof -
  from py_sorted_same_kind [OF assms] obtain ss where
    ss: "py_sorted (dict_keys d) = Inr ss" "mset ss = mset (dict_keys d)" "sorted_wrt key_le ss"
    by blast
  from ss(2) have "set ss = set (dict_keys d)" by (rule mset_eq_setD)
  then have "\<forall>k\<in>set ss. dict_lookup d k \<noteq> None"
    using dict_lookup_key [of _ d] by (auto simp: dict_keys_def)
  from write_lines_ok [OF this] ss show ?thesis
    by (auto simp: write_results_def)
qed

text \<open>
  Claim C7 says that for every per-sale mapping, with identifiers that may be text or
  numbers, the report holds one line per identifier in ascending order. That holds when
  the identifiers are all finite numbers or all text (\<open>write_results_same_kind\<close>). The
  aggregator also returns mappings that mix the two, here \<^verbatim>\<open>{1: 10.0, "A7": 5.0}\<close>: then
  \<^verbatim>\<open>sorted(sale_totals)\<close> raises \<^verbatim>\<open>TypeError\<close> after the header has been written, and the
  report holds the header and no line for any identifier.
\<close>

theorem mixed_identifiers_raise:
  "write_results fmt [(KInt 1, Fin 10), (KStr ''A7'', Fin 5)] (Fin 15) elapsed_time
   = ([header], Some TypeError)"
  by (simp add: write_results_def dict_keys_def key_lt_def)


end
